theory Spec2Isabelle
  imports Complex_Main "HOL-Library.Word"
begin

section \<open>Values shared by the whole development\<close>

text \<open>
  The repository is a Go layer over a foreign tensor runtime. Three source files are
  modelled: \<^verbatim>\<open>tensor/module.go\<close> (the two accuracy evaluators and the
  optional-module combinators), \<^verbatim>\<open>nn/init.go\<close> (the initializers) and the
  \<^verbatim>\<open>Tensor\<close> struct of \<^verbatim>\<open>wrapper/tensor.go\<close>.

  Go's \<^verbatim>\<open>float64\<close> is modelled by exact reals together with the three
  special values a division or a square root can produce; rounding is not modelled.
  Go's \<^verbatim>\<open>int\<close> and \<^verbatim>\<open>int64\<close> are modelled by \<^typ>\<open>int\<close>: every
  integer the evaluators compute lies between \<open>-samples\<close> and \<open>samples\<close>, where
  \<open>samples\<close> is a tensor dimension, so no wrap-around can occur there. The
  \<^verbatim>\<open>uint64\<close> of \<^verbatim>\<open>factorial\<close> does wrap and is a 64-bit word.
\<close>

datatype float64 = Fin real | PosInf | NegInf | NaN

text \<open>IEEE division of two finite values: \<open>0/0\<close> is NaN, \<open>x/0\<close> is an infinity.\<close>

definition f64_div :: "real \<Rightarrow> real \<Rightarrow> float64" where
  "f64_div a b =
     (if b = 0 then (if a = 0 then NaN else if 0 < a then PosInf else NegInf)
      else Fin (a / b))"

text \<open>Go's integer division truncates towards zero; the divisor is not zero here.\<close>

definition go_div :: "int \<Rightarrow> int \<Rightarrow> int" where
  "go_div a b = sgn a * sgn b * (\<bar>a\<bar> div \<bar>b\<bar>)"

datatype device = CPU | CudaDevice nat

text \<open>How a call ends when it does not return: a run-time panic of Go, or the
  \<^verbatim>\<open>log.Fatal\<close> of a \<^verbatim>\<open>Must...\<close> wrapper around a failed foreign call.\<close>

datatype failure =
    IndexOutOfRange
  | IntegerDivideByZero
  | MakeSliceLenOutOfRange
  | NilDereference
  | StackExhausted
  | DoubleFree
  | ForeignError

section \<open>Initializers (nn/init.go)\<close>

text \<open>
  An initializer hands a host buffer and a shape to the foreign runtime
  (\<^verbatim>\<open>ts.NewTensorFromData(data, dims)\<close>) or fills a zero tensor in place. The
  tensor it produces is described by its shape, its elements in row-major order and
  its device.
\<close>

record host_tensor =
  shape :: "int list"
  elems :: "real list"
  placed :: device

text \<open>Modelled from the spec: \<^verbatim>\<open>ts.FlattenDim\<close> is not in the sources; the
  spec calls it \<open>product(shape)\<close>, the element count.\<close>

definition FlattenDim :: "int list \<Rightarrow> int" where
  "FlattenDim dims = prod_list dims"

text \<open>Modelled from the spec: \<^verbatim>\<open>ts.NewTensorFromData\<close> is not in the sources.
  It is the "tensor-from-encoded-bytes" constructor of the spec: the buffer's length
  has to equal \<open>product(shape)\<close> and no dimension may be negative, otherwise the
  call fails with a shape mismatch. The tensor is created on the host.\<close>

definition NewTensorFromData :: "real list \<Rightarrow> int list \<Rightarrow> failure + host_tensor" where
  "NewTensorFromData data dims =
     (if list_ex (\<lambda>d. d < 0) dims \<or> int (length data) \<noteq> FlattenDim dims
      then Inl ForeignError
      else Inr \<lparr>shape = dims, elems = data, placed = CPU\<rparr>)"

text \<open>Modelled from the spec: \<^verbatim>\<open>ts.MustZeros\<close> is not in the sources; it
  allocates a tensor of the shape, filled with zeros, on the device.\<close>

definition MustZeros :: "int list \<Rightarrow> device \<Rightarrow> failure + host_tensor" where
  "MustZeros dims dv =
     (if list_ex (\<lambda>d. d < 0) dims then Inl ForeignError
      else Inr \<lparr>shape = dims, elems = replicate (nat (FlattenDim dims)) 0, placed = dv\<rparr>)"

text \<open>Modelled from the spec: \<^verbatim>\<open>Uniform_\<close> is the foreign in-place uniform
  sampler. The draws of the foreign generator are a parameter \<open>u\<close>: \<open>u i\<close> is the
  position of the \<open>i\<close>-th element inside the range, so that the element is
  \<open>lo + (hi - lo) * u i\<close>. A range with a bound that is not finite is refused.\<close>

definition Uniform_inplace :: "(nat \<Rightarrow> real) \<Rightarrow> float64 \<Rightarrow> float64 \<Rightarrow> host_tensor \<Rightarrow> failure + host_tensor" where
  "Uniform_inplace u lo hi t =
     (case (lo, hi) of
        (Fin a, Fin b) \<Rightarrow>
          Inr (t\<lparr>elems := map (\<lambda>i. a + (b - a) * u i) [0..<length (elems t)]\<rparr>)
      | _ \<Rightarrow> Inl ForeignError)"

subsection \<open>randnInit\<close>

record randnInit =
  mean :: real
  stdev :: real

definition NewRandnInit :: "real \<Rightarrow> real \<Rightarrow> randnInit" where
  "NewRandnInit m sd = \<lparr>mean = m, stdev = sd\<rparr>"

text \<open>Both methods draw from \<^verbatim>\<open>rd := rand.Rand{}\<close>, the zero value of the
  standard library's \<^verbatim>\<open>math/rand.Rand\<close>. A \<^verbatim>\<open>Rand\<close> reads its values from a source
  (\<^verbatim>\<open>rand.New(src)\<close> sets it); the zero value has the nil source.
  \<^verbatim>\<open>NormFloat64\<close> asks the source for its next value, so on the nil source it
  panics with a nil pointer dereference. A source is modelled by the sequence of
  standard normal values it gives and the position reached in it.\<close>

record Rand =
  rand_src :: "(nat \<Rightarrow> real) option"
  rand_pos :: nat

definition Rand_zero :: Rand where
  "Rand_zero = \<lparr>rand_src = None, rand_pos = 0\<rparr>"

definition NormFloat64 :: "Rand \<Rightarrow> failure + (real \<times> Rand)" where
  "NormFloat64 rd =
     (case rand_src rd of
        None \<Rightarrow> Inl NilDereference
      | Some z \<Rightarrow> Inr (z (rand_pos rd), rd\<lparr>rand_pos := Suc (rand_pos rd)\<rparr>))"

text \<open>The loop \<^verbatim>\<open>for i := range data { data[i] = rd.NormFloat64()*r.mean + r.stdev }\<close>
  of both methods: \<open>k\<close> elements are still to be written, \<open>filled\<close> are the elements
  written so far.\<close>

fun randn_data :: "Rand \<Rightarrow> randnInit \<Rightarrow> nat \<Rightarrow> real list \<Rightarrow> failure + real list" where
  "randn_data rd r 0 filled = Inr filled"
| "randn_data rd r (Suc k) filled =
     (case NormFloat64 rd of
        Inl e \<Rightarrow> Inl e
      | Inr (z, rd') \<Rightarrow> randn_data rd' r k (filled @ [z * mean r + stdev r]))"

text \<open>\<^verbatim>\<open>make([]float64, n)\<close> panics on a negative length.\<close>

definition randnInit_InitTensor ::
  "randnInit \<Rightarrow> int list \<Rightarrow> device \<Rightarrow> failure + host_tensor" where
  "randnInit_InitTensor r dims dv =
     (let rd = Rand_zero in
      if FlattenDim dims < 0 then Inl MakeSliceLenOutOfRange
      else (case randn_data rd r (nat (FlattenDim dims)) [] of
              Inl e \<Rightarrow> Inl e
            | Inr data \<Rightarrow> NewTensorFromData data dims))"

text \<open>\<^verbatim>\<open>Set\<close> builds the same buffer for the shape of the tensor it is given and
  copies it into that tensor (\<^verbatim>\<open>tensor.Copy_(randnTs)\<close>), which keeps its device.
  The tensor is written only by that last statement.\<close>

definition randnInit_Set ::
  "randnInit \<Rightarrow> host_tensor \<Rightarrow> failure + host_tensor" where
  "randnInit_Set r tensor =
     (let dims = shape tensor; rd = Rand_zero in
      if FlattenDim dims < 0 then Inl MakeSliceLenOutOfRange
      else (case randn_data rd r (nat (FlattenDim dims)) [] of
              Inl e \<Rightarrow> Inl e
            | Inr data \<Rightarrow>
                (case NewTensorFromData data dims of
                   Inl e \<Rightarrow> Inl e
                 | Inr randnTs \<Rightarrow> Inr (tensor\<lparr>elems := elems randnTs\<rparr>))))"

subsection \<open>kaimingUniformInit\<close>

type_synonym uint64 = "64 word"

function factorial :: "uint64 \<Rightarrow> uint64" where
  "factorial n = (if n > 0 then n * factorial (n - 1) else 1)"
  by pat_completeness auto
termination
proof (relation "measure unat")
  show "wf (measure unat)" by simp
next
  fix n :: uint64
  assume "0 < n"
  then have "n \<noteq> 0" by auto
  then have "unat (n - 1) = unat n - 1" by (rule unat_minus_one)
  moreover from \<open>n \<noteq> 0\<close> have "unat n \<noteq> 0" by (simp add: unat_eq_0)
  ultimately show "(n - 1, n) \<in> measure unat" by simp
qed

declare factorial.simps [simp del]

text \<open>\<^verbatim>\<open>math.Sqrt(1.0 / float64(fanIn))\<close>: a zero \<open>fanIn\<close> gives \<open>+Inf\<close>.\<close>

definition kaiming_bound :: "uint64 \<Rightarrow> float64" where
  "kaiming_bound fanIn = (if fanIn = 0 then PosInf else Fin (sqrt (1 / real (unat fanIn))))"

definition f64_neg :: "float64 \<Rightarrow> float64" where
  "f64_neg x = (case x of Fin a \<Rightarrow> Fin (- a) | PosInf \<Rightarrow> NegInf | NegInf \<Rightarrow> PosInf | NaN \<Rightarrow> NaN)"

text \<open>\<^verbatim>\<open>uint64(len(dims) - 1)\<close> wraps to \<open>2^64 - 1\<close> for an empty shape, and the
  recursion of \<^verbatim>\<open>factorial\<close> then exhausts the stack.\<close>

definition kaimingUniformInit_InitTensor ::
  "(nat \<Rightarrow> real) \<Rightarrow> int list \<Rightarrow> device \<Rightarrow> failure + host_tensor" where
  "kaimingUniformInit_InitTensor u dims dv =
     (if dims = [] then Inl StackExhausted
      else
        let fanIn = factorial (word_of_int (int (length dims) - 1));
            bound = kaiming_bound fanIn
        in (case MustZeros dims dv of
              Inl e \<Rightarrow> Inl e
            | Inr retVal \<Rightarrow> Uniform_inplace u (f64_neg bound) bound retVal))"

section \<open>Foreign tensors seen from Go (wrapper/tensor.go)\<close>

text \<open>
  \<^verbatim>\<open>type Tensor struct { ctensor *lib.C_tensor }\<close>: a Go value that points at a
  tensor object of the foreign runtime. The model names the object by a number (the
  \<open>ctensor\<close> handle) and carries along what the runtime stores for it: the buffer
  the object reads (\<open>storage\<close>; two objects with the same storage alias each other),
  its contents and its device. The evaluators never write into a tensor, so the
  contents of an object do not change while it lives.

  The contents are a scalar (rank 0), or the list of the slices along the leading
  dimension, each slice flattened to its elements (rank 1 and more), or, for the
  index tensor of \<^verbatim>\<open>MustRandperm\<close>, a list of 64-bit integers.
\<close>

type_synonym handle = nat
type_synonym row = "real list"

datatype tdata = Scalar real | Rows "row list" | Int64s "int list"

record Tensor =
  ctensor :: handle
  storage :: nat
  contents :: tdata
  tdevice :: device

text \<open>The call site that created a tensor object.\<close>

datatype origin =
    FromRandperm | FromIndexSelect | FromNarrow | FromTo
  | FromForward | FromAccuracy | FromShallowClone

text \<open>The calls into a module and into the foreign accuracy primitive, with the
  contents of their operands.\<close>

datatype call = ForwardCall tdata | ForwardTCall tdata bool | AccuracyCall tdata tdata

text \<open>
  The process state the code acts on: the tensor objects that are allocated and not
  yet released, the call site of every object created so far, the next free object
  number, the process-wide gradient-tracking mode, and the log of module and accuracy
  calls.
\<close>

record world =
  live :: "handle set"
  origin_of :: "handle \<Rightarrow> origin option"
  next_handle :: handle
  grad_enabled :: bool
  calls :: "call list"

text \<open>A Go call either returns a value or fails; both leave a state behind.\<close>

type_synonym 'a go = "world \<Rightarrow> (failure + 'a) \<times> world"

definition ret :: "'a \<Rightarrow> 'a go" where
  "ret x s = (Inr x, s)"

definition panic :: "failure \<Rightarrow> 'a go" where
  "panic e s = (Inl e, s)"

definition andThen :: "'a go \<Rightarrow> ('a \<Rightarrow> 'b go) \<Rightarrow> 'b go" where
  "andThen m f s = (case m s of (Inl e, s') \<Rightarrow> (Inl e, s') | (Inr x, s') \<Rightarrow> f x s')"

text \<open>
  The Handle operations of the \<^verbatim>\<open>tensor\<close> package (create, release, shallow
  clone, move to a device, narrow, index-select, size, read-back) are not in the
  sources; each is modelled below from the spec's Handle contract: creation allocates
  a new foreign object and returns its owner; a shallow clone is a second Handle on
  the same foreign resource; release ends an object's life and must happen once.
\<close>

text \<open>Modelled from the spec: the creation primitive of the foreign runtime is not in
  the sources. It returns a new object, numbered by the next free number; the object
  reads the given storage, or a storage of its own.\<close>

definition alloc :: "origin \<Rightarrow> nat option \<Rightarrow> tdata \<Rightarrow> device \<Rightarrow> Tensor go" where
  "alloc og st c dv s =
     (let h = next_handle s in
      (Inr \<lparr>ctensor = h, storage = (case st of None \<Rightarrow> h | Some b \<Rightarrow> b),
            contents = c, tdevice = dv\<rparr>,
       s\<lparr>live := insert h (live s), origin_of := (origin_of s)(h \<mapsto> og),
         next_handle := Suc h\<rparr>))"

text \<open>Modelled from the spec: \<^verbatim>\<open>MustDrop\<close> is not in the sources. It is the
  release operation; releasing an object that is not live fails.\<close>

definition MustDrop :: "Tensor \<Rightarrow> unit go" where
  "MustDrop t s =
     (if ctensor t \<in> live s then (Inr (), s\<lparr>live := live s - {ctensor t}\<rparr>)
      else (Inl DoubleFree, s))"

text \<open>Modelled from the spec: \<^verbatim>\<open>MustSize\<close> is not in the sources. The model
  keeps the leading dimension of the shape, when there is one.\<close>

fun size0 :: "tdata \<Rightarrow> int option" where
  "size0 (Scalar v) = None"
| "size0 (Rows rs) = Some (int (length rs))"
| "size0 (Int64s ks) = Some (int (length ks))"

text \<open>\<^verbatim>\<open>ts.MustSize()[0]\<close>: indexing the empty shape of a scalar panics.\<close>

definition MustSize_0 :: "Tensor \<Rightarrow> int go" where
  "MustSize_0 t = (case size0 (contents t) of None \<Rightarrow> panic IndexOutOfRange | Some n \<Rightarrow> ret n)"

text \<open>Modelled from the spec: \<^verbatim>\<open>MustTo\<close> is not in the sources.
  \<^verbatim>\<open>ts.MustTo(device, del)\<close> is the move to the target device: a new object on
  the device with the same contents; with \<open>del\<close> the receiver is released.\<close>

definition MustTo :: "device \<Rightarrow> bool \<Rightarrow> Tensor \<Rightarrow> Tensor go" where
  "MustTo d del t =
     andThen (alloc FromTo None (contents t) d) (\<lambda>t'.
       if del then andThen (MustDrop t) (\<lambda>_. ret t') else ret t')"

text \<open>Modelled from the spec: \<^verbatim>\<open>MustShallowClone\<close> is not in the sources. The
  spec's shallow copy creates a second Handle that references the same foreign
  resource; a materializing copy would allocate a new one.\<close>

definition MustShallowClone :: "Tensor \<Rightarrow> Tensor go" where
  "MustShallowClone t = alloc FromShallowClone (Some (storage t)) (contents t) (tdevice t)"

fun narrow_data :: "nat \<Rightarrow> nat \<Rightarrow> tdata \<Rightarrow> tdata" where
  "narrow_data a n (Scalar v) = Scalar v"
| "narrow_data a n (Rows rs) = Rows (take n (drop a rs))"
| "narrow_data a n (Int64s ks) = Int64s (take n (drop a ks))"

text \<open>Modelled from the spec: the narrowing of a tensor is not in the sources. It
  gives a view of \<open>len\<close> slices from \<open>start\<close> on along the leading dimension (the
  spec's contiguous range); the view reads the storage of its source.\<close>

definition MustNarrow :: "int \<Rightarrow> int \<Rightarrow> Tensor \<Rightarrow> Tensor go" where
  "MustNarrow start len t =
     (case size0 (contents t) of
        None \<Rightarrow> panic ForeignError
      | Some n \<Rightarrow>
          if 0 \<le> start \<and> 0 \<le> len \<and> start + len \<le> n
          then alloc FromNarrow (Some (storage t))
                 (narrow_data (nat start) (nat len) (contents t)) (tdevice t)
          else panic ForeignError)"

record Narrow =
  Start :: int
  End :: int

definition NewNarrow :: "int \<Rightarrow> int \<Rightarrow> Narrow" where
  "NewNarrow a b = \<lparr>Start = a, End = b\<rparr>"

text \<open>Modelled from the spec: \<^verbatim>\<open>NewNarrow\<close> and \<^verbatim>\<open>Idx\<close> are not in the
  sources. \<^verbatim>\<open>ts.Idx(NewNarrow(a, b))\<close> is the view of the slices \<open>[a, b)\<close>.\<close>

definition Idx :: "Narrow \<Rightarrow> Tensor \<Rightarrow> Tensor go" where
  "Idx ix t = MustNarrow (Start ix) (End ix - Start ix) t"

text \<open>Modelled from the spec: \<^verbatim>\<open>MustRandperm\<close> is not in the sources.
  \<^verbatim>\<open>MustRandperm(n, gotch.Int64, device)\<close> creates the index tensor of a random
  permutation; the permutation the foreign generator draws is a parameter of the
  model.\<close>

definition MustRandperm :: "int list \<Rightarrow> device \<Rightarrow> Tensor go" where
  "MustRandperm drawn dv = alloc FromRandperm None (Int64s drawn) dv"

fun select_data :: "tdata \<Rightarrow> int list \<Rightarrow> tdata option" where
  "select_data (Scalar v) ks = None"
| "select_data (Rows rs) ks =
     (if list_all (\<lambda>k. 0 \<le> k \<and> k < int (length rs)) ks
      then Some (Rows (map (\<lambda>k. rs ! nat k) ks)) else None)"
| "select_data (Int64s js) ks =
     (if list_all (\<lambda>k. 0 \<le> k \<and> k < int (length js)) ks
      then Some (Int64s (map (\<lambda>k. js ! nat k) ks)) else None)"

text \<open>Modelled from the spec: \<^verbatim>\<open>MustIndexSelect\<close> is not in the sources.
  \<^verbatim>\<open>ts.MustIndexSelect(0, index, del)\<close> applies the permutation: it creates a
  tensor whose \<open>k\<close>-th slice is slice \<open>index[k]\<close> of the receiver, and fails on an
  index outside the receiver.\<close>

definition MustIndexSelect :: "Tensor \<Rightarrow> Tensor \<Rightarrow> bool \<Rightarrow> Tensor go" where
  "MustIndexSelect t index del =
     (case contents index of
        Int64s ks \<Rightarrow>
          (case select_data (contents t) ks of
             None \<Rightarrow> panic ForeignError
           | Some c \<Rightarrow>
               andThen (alloc FromIndexSelect None c (tdevice t)) (\<lambda>t'.
                 if del then andThen (MustDrop t) (\<lambda>_. ret t') else ret t'))
      | _ \<Rightarrow> panic ForeignError)"

fun Values :: "tdata \<Rightarrow> real list" where
  "Values (Scalar v) = [v]"
| "Values (Rows rs) = concat rs"
| "Values (Int64s ks) = map real_of_int ks"

text \<open>Modelled from the spec: \<^verbatim>\<open>Values\<close> is not in the sources. It is the
  read-back of all elements in row-major order; \<^verbatim>\<open>ts.Values()[0]\<close> panics
  when there is none.\<close>

definition Values_0 :: "Tensor \<Rightarrow> real go" where
  "Values_0 t = (case Values (contents t) of [] \<Rightarrow> panic IndexOutOfRange | v # _ \<Rightarrow> ret v)"

text \<open>Modelled from the spec: \<^verbatim>\<open>AccuracyForLogits\<close> is the foreign runtime's
  logits-accuracy primitive. What it computes is a parameter \<open>af\<close>; the call
  allocates the scalar tensor that holds the value.\<close>

definition AccuracyForLogits :: "(tdata \<Rightarrow> tdata \<Rightarrow> real) \<Rightarrow> Tensor \<Rightarrow> Tensor \<Rightarrow> Tensor go" where
  "AccuracyForLogits af logits labels s =
     alloc FromAccuracy None (Scalar (af (contents logits) (contents labels))) (tdevice logits)
       (s\<lparr>calls := calls s @ [AccuracyCall (contents logits) (contents labels)]\<rparr>)"

section \<open>Modules (tensor/module.go)\<close>

text \<open>
  The interfaces \<^verbatim>\<open>Module\<close> and \<^verbatim>\<open>ModuleT\<close> have one method each. An
  implementation is given by the function it computes on tensor contents; the call
  allocates the tensor object of the result.
\<close>

type_synonym Module = "tdata \<Rightarrow> tdata"
type_synonym ModuleT = "tdata \<Rightarrow> bool \<Rightarrow> tdata"

definition Forward :: "Module \<Rightarrow> Tensor \<Rightarrow> Tensor go" where
  "Forward m x s =
     alloc FromForward None (m (contents x)) (tdevice x)
       (s\<lparr>calls := calls s @ [ForwardCall (contents x)]\<rparr>)"

definition ForwardT :: "ModuleT \<Rightarrow> Tensor \<Rightarrow> bool \<Rightarrow> Tensor go" where
  "ForwardT m x train s =
     alloc FromForward None (m (contents x) train) (tdevice x)
       (s\<lparr>calls := calls s @ [ForwardTCall (contents x) train]\<rparr>)"

definition Apply :: "Tensor \<Rightarrow> Module \<Rightarrow> Tensor go" where
  "Apply ts m = Forward m ts"

definition ApplyT :: "Tensor \<Rightarrow> ModuleT \<Rightarrow> bool \<Rightarrow> Tensor go" where
  "ApplyT ts m train = ForwardT m ts train"

type_synonym ModuleOption = "unit \<Rightarrow> Module"
type_synonym ModuleTOption = "unit \<Rightarrow> ModuleT"

definition WithModule :: "Module \<Rightarrow> ModuleOption" where
  "WithModule m = (\<lambda>_. m)"

definition WithModuleT :: "ModuleT \<Rightarrow> ModuleTOption" where
  "WithModuleT m = (\<lambda>_. m)"

definition ApplyOpt :: "Tensor \<Rightarrow> ModuleOption list \<Rightarrow> Tensor go" where
  "ApplyOpt ts opts =
     (case opts of
        opt # _ \<Rightarrow> (let m = opt () in Forward m ts)
      | [] \<Rightarrow> MustShallowClone ts)"

definition ApplyOptT :: "Tensor \<Rightarrow> bool \<Rightarrow> ModuleTOption list \<Rightarrow> Tensor go" where
  "ApplyOptT ts train opts =
     (case opts of
        opt # _ \<Rightarrow> (let m = opt () in ForwardT m ts train)
      | [] \<Rightarrow> MustShallowClone ts)"

section \<open>The no-grad guard and the batch iterator\<close>

text \<open>Modelled from the spec: \<^verbatim>\<open>NewNoGradGuard\<close> and its \<^verbatim>\<open>Drop\<close> are not
  in the sources. The spec's ResourceGuard switches the process-wide gradient-tracking
  mode off for its lifetime and restores the prior mode on exit.\<close>

record NoGradGuard =
  prior_mode :: bool

definition NewNoGradGuard :: "world \<Rightarrow> NoGradGuard \<times> world" where
  "NewNoGradGuard s = (\<lparr>prior_mode = grad_enabled s\<rparr>, s\<lparr>grad_enabled := False\<rparr>)"

definition NoGradGuard_Drop :: "NoGradGuard \<Rightarrow> world \<Rightarrow> world" where
  "NoGradGuard_Drop g s = s\<lparr>grad_enabled := prior_mode g\<rparr>"

text \<open>Modelled from the spec: \<^verbatim>\<open>Iter2\<close>, \<^verbatim>\<open>MustNewIter2\<close> and
  \<^verbatim>\<open>Next\<close> are not in the sources. The spec's BatchIterator takes two Handles
  that share their leading dimension length \<open>N\<close> and a batch size \<open>B\<close>, and yields
  the slices \<open>[i*B, i*B+B)\<close> of both, in order, as long as \<open>B\<close> rows remain; it stops
  and drops the final partial batch. The sequence is finite: a batch size that is not
  positive yields no batch.\<close>

record Iter2 =
  iter_xs :: Tensor
  iter_ys :: Tensor
  iter_batchIndex :: int
  iter_batchSize :: int
  iter_totalSize :: int

record Iter2Item =
  Data :: Tensor
  Label :: Tensor

definition MustNewIter2 :: "Tensor \<Rightarrow> Tensor \<Rightarrow> int \<Rightarrow> Iter2 go" where
  "MustNewIter2 xs ys batchSize =
     andThen (MustSize_0 xs) (\<lambda>n.
     andThen (MustSize_0 ys) (\<lambda>k.
       if k \<noteq> n then panic ForeignError
       else ret \<lparr>iter_xs = xs, iter_ys = ys, iter_batchIndex = 0,
                 iter_batchSize = batchSize, iter_totalSize = n\<rparr>))"

definition Next :: "Iter2 \<Rightarrow> (Iter2Item option \<times> Iter2) go" where
  "Next it =
     (let start = iter_batchIndex it * iter_batchSize it;
          size = iter_batchSize it
      in if size \<le> 0 \<or> iter_totalSize it - start < size then ret (None, it)
         else
           andThen (MustNarrow start size (iter_xs it)) (\<lambda>dat.
           andThen (MustNarrow start size (iter_ys it)) (\<lambda>lab.
             ret (Some \<lparr>Data = dat, Label = lab\<rparr>, it\<lparr>iter_batchIndex := iter_batchIndex it + 1\<rparr>))))"

section \<open>The accuracy evaluators (tensor/module.go)\<close>

text \<open>
  Both evaluators take, besides the arguments of the Go functions, the foreign
  accuracy primitive \<open>af\<close>; the index-based one also takes \<open>rp\<close>, the permutation
  that \<^verbatim>\<open>MustRandperm\<close> draws for a given length. The running sums are the
  pair \<open>tot\<close>, that is \<open>(sumAccuracy, sampleCount)\<close>.
\<close>

subsection \<open>BatchAccuracyForLogits\<close>

text \<open>The body of the loop, lines 76 to 87, for an item the iterator produced.\<close>

definition logits_body ::
  "(tdata \<Rightarrow> tdata \<Rightarrow> real) \<Rightarrow> ModuleT \<Rightarrow> device \<Rightarrow> Iter2Item \<Rightarrow> real \<times> real \<Rightarrow> (real \<times> real) go" where
  "logits_body af m d item tot =
     andThen (MustSize_0 (Data item)) (\<lambda>n. let size = real_of_int n in
     andThen (MustTo d True (Data item)) (\<lambda>bImages.
     andThen (MustTo d True (Label item)) (\<lambda>bLabels.
     andThen (ForwardT m bImages False) (\<lambda>logits.
     andThen (AccuracyForLogits af logits bLabels) (\<lambda>acc.
     andThen (Values_0 acc) (\<lambda>v.
     let sumAccuracy = fst tot + v * size;
         sampleCount = snd tot + size
     in
     andThen (MustDrop bImages) (\<lambda>_.
     andThen (MustDrop bLabels) (\<lambda>_.
     andThen (MustDrop acc) (\<lambda>_.
       ret (sumAccuracy, sampleCount))))))))))"

text \<open>\<^verbatim>\<open>for { item, ok := iter2.Next(); if !ok { break }; ... }\<close>.\<close>

function logits_loop ::
  "(tdata \<Rightarrow> tdata \<Rightarrow> real) \<Rightarrow> ModuleT \<Rightarrow> device \<Rightarrow> Iter2 \<Rightarrow> real \<times> real \<Rightarrow> (real \<times> real) go" where
  "logits_loop af m d iter2 tot s =
     (case Next iter2 s of
        (Inl e, s1) \<Rightarrow> (Inl e, s1)
      | (Inr (None, iter2'), s1) \<Rightarrow> (Inr tot, s1)
      | (Inr (Some item, iter2'), s1) \<Rightarrow>
          (case logits_body af m d item tot s1 of
             (Inl e, s2) \<Rightarrow> (Inl e, s2)
           | (Inr tot', s2) \<Rightarrow> logits_loop af m d iter2' tot' s2))"
  by pat_completeness auto
termination
proof (relation "measure (\<lambda>(af, m, d, it, tot, s).
                   nat (iter_totalSize it - iter_batchIndex it * iter_batchSize it))")
  show "wf (measure (\<lambda>(af, m, d, it, tot, s).
                   nat (iter_totalSize it - iter_batchIndex it * iter_batchSize it)))"
    by simp
next
  fix af :: "tdata \<Rightarrow> tdata \<Rightarrow> real" and m :: ModuleT and d :: device and iter2 :: Iter2
    and tot :: "real \<times> real" and s :: world
    and x1 x2 x1a x2a x1b x2b x2c x1c x2d x1d
  assume nx: "(x1, x2) = Next iter2 s" "x1 = Inr x1a" "(x1b, x2b) = x1a" "x1b = Some x2c"
  then have eq: "Next iter2 s = (Inr (Some x2c, x2b), x2)" by simp
  have pos: "0 < iter_batchSize iter2"
    and room: "iter_batchSize iter2 \<le> iter_totalSize iter2 - iter_batchIndex iter2 * iter_batchSize iter2"
    and nxt: "x2b = iter2\<lparr>iter_batchIndex := iter_batchIndex iter2 + 1\<rparr>"
    using eq
    by (auto simp: Next_def Let_def ret_def andThen_def
        split: if_splits prod.splits sum.splits)
  have "iter_totalSize x2b - iter_batchIndex x2b * iter_batchSize x2b
        = iter_totalSize iter2 - iter_batchIndex iter2 * iter_batchSize iter2 - iter_batchSize iter2"
    by (simp add: nxt algebra_simps)
  with pos room
  show "((af, m, d, x2b, x1d, x2d), (af, m, d, iter2, tot, s))
        \<in> measure (\<lambda>(af, m, d, it, tot, s).
                   nat (iter_totalSize it - iter_batchIndex it * iter_batchSize it))"
    by simp
qed

declare logits_loop.simps [simp del]

text \<open>The guard is released by a deferred call, which runs on return and on panic.\<close>

definition BatchAccuracyForLogits ::
  "(tdata \<Rightarrow> tdata \<Rightarrow> real) \<Rightarrow> ModuleT \<Rightarrow> Tensor \<Rightarrow> Tensor \<Rightarrow> device \<Rightarrow> int \<Rightarrow> float64 go" where
  "BatchAccuracyForLogits af m xs ys d batchSize s =
     (let (noGradGuard, s1) = NewNoGradGuard s;
          (retVal, s2) =
            andThen (MustNewIter2 xs ys batchSize) (\<lambda>iter2.
            andThen (logits_loop af m d iter2 (0, 0)) (\<lambda>tot.
              ret (f64_div (fst tot) (snd tot)))) s1
      in (retVal, NoGradGuard_Drop noGradGuard s2))"

subsection \<open>BatchAccuracyForLogitsIdx\<close>

text \<open>The body of the loop from the indexing on, lines 124 to 144.\<close>

definition idx_body ::
  "(tdata \<Rightarrow> tdata \<Rightarrow> real) \<Rightarrow> ModuleT \<Rightarrow> device \<Rightarrow> Tensor \<Rightarrow> Tensor \<Rightarrow> Tensor \<Rightarrow> int \<Rightarrow> int
     \<Rightarrow> real \<times> real \<Rightarrow> (real \<times> real) go" where
  "idx_body af m d xs imagesTs labelsTs start sz tot =
     (let narrowIndex = NewNarrow start (start + sz) in
      andThen (Idx narrowIndex imagesTs) (\<lambda>bImages0.
      andThen (Idx narrowIndex labelsTs) (\<lambda>bLabels0.
      andThen (MustTo d True bImages0) (\<lambda>bImages.
      andThen (MustTo d True bLabels0) (\<lambda>bLabels.
      andThen (ForwardT m bImages True) (\<lambda>logits.
      andThen (AccuracyForLogits af logits bLabels) (\<lambda>bAccuracy.
      andThen (Values_0 bAccuracy) (\<lambda>accuVal.
      andThen (MustSize_0 xs) (\<lambda>n. let bSamples = real_of_int n in
      let sumAccuracy = fst tot + accuVal * bSamples;
          sampleCount = snd tot + bSamples
      in
      andThen (MustDrop bImages) (\<lambda>_.
      andThen (MustDrop bLabels) (\<lambda>_.
      andThen (MustDrop bAccuracy) (\<lambda>_.
        ret (sumAccuracy, sampleCount)))))))))))))"

text \<open>\<^verbatim>\<open>for i := 0; i < batches; i++ { ... }\<close> with its early \<^verbatim>\<open>break\<close>.\<close>

function idx_loop ::
  "(tdata \<Rightarrow> tdata \<Rightarrow> real) \<Rightarrow> ModuleT \<Rightarrow> device \<Rightarrow> Tensor \<Rightarrow> Tensor \<Rightarrow> Tensor \<Rightarrow> int \<Rightarrow> int
     \<Rightarrow> int \<Rightarrow> int \<Rightarrow> int \<Rightarrow> real \<times> real \<Rightarrow> (real \<times> real) go" where
  "idx_loop af m d xs imagesTs labelsTs samples batchSize batches i batchIndex tot s =
     (if i < batches then
        (let start = batchIndex * batchSize;
             size = batchSize
         in if samples - start < batchSize then (Inr tot, s)
            else
              (case idx_body af m d xs imagesTs labelsTs start size tot s of
                 (Inl e, s') \<Rightarrow> (Inl e, s')
               | (Inr tot', s') \<Rightarrow>
                   idx_loop af m d xs imagesTs labelsTs samples batchSize batches
                     (i + 1) (batchIndex + 1) tot' s'))
      else (Inr tot, s))"
  by pat_completeness auto
termination
  by (relation "measure (\<lambda>(af, m, d, xs, imagesTs, labelsTs, samples, batchSize, batches,
                           i, batchIndex, tot, s). nat (batches - i))")
     auto

declare idx_loop.simps [simp del]

text \<open>The guard is created and discarded (\<^verbatim>\<open>_ = NewNoGradGuard()\<close>); the call
  that would switch gradient tracking back on is commented out in the source.\<close>

definition BatchAccuracyForLogitsIdx ::
  "(tdata \<Rightarrow> tdata \<Rightarrow> real) \<Rightarrow> (int \<Rightarrow> int list) \<Rightarrow> ModuleT \<Rightarrow> Tensor \<Rightarrow> Tensor \<Rightarrow> device \<Rightarrow> int
     \<Rightarrow> float64 go" where
  "BatchAccuracyForLogitsIdx af rp m xs ys d batchSize s =
     (let (unused, s1) = NewNoGradGuard s in
      andThen (MustSize_0 xs) (\<lambda>totalSize. let samples = totalSize in
      andThen (MustRandperm (rp totalSize) CPU) (\<lambda>index.
      andThen (MustIndexSelect xs index False) (\<lambda>imagesTs.
      andThen (MustIndexSelect ys index False) (\<lambda>labelsTs.
      if batchSize = 0 then panic IntegerDivideByZero
      else
        let batches = go_div samples batchSize in
        andThen (idx_loop af m d xs imagesTs labelsTs samples batchSize batches 0 0 (0, 0))
          (\<lambda>tot.
        andThen (MustDrop imagesTs) (\<lambda>_.
        andThen (MustDrop labelsTs) (\<lambda>_.
          ret (f64_div (fst tot) (snd tot))))))))) s1)"

section \<open>What one batch does to the state\<close>

text \<open>
  The definitions of this section are not code of the repository: they describe, in
  closed form, the effect of one pass through the loop body of either evaluator, and
  are shown below to agree with the loops above.

  A pass creates six tensor objects, numbered from the next free number \<open>n\<close> on: the
  two slices (\<open>n\<close>, \<open>n+1\<close>), the two tensors moved to the device (\<open>n+2\<close>, \<open>n+3\<close>),
  the logits (\<open>n+4\<close>) and the accuracy scalar (\<open>n+5\<close>). All but the logits are
  released.
\<close>

definition batch_effect :: "tdata \<Rightarrow> bool \<Rightarrow> tdata \<Rightarrow> tdata \<Rightarrow> world \<Rightarrow> world" where
  "batch_effect bI train lg bL s =
     (let n = next_handle s in
      s\<lparr>live := insert (n + 4) (live s - {n, n + 1, n + 2, n + 3, n + 5}),
        origin_of := (origin_of s)
          (n \<mapsto> FromNarrow, n + 1 \<mapsto> FromNarrow, n + 2 \<mapsto> FromTo, n + 3 \<mapsto> FromTo,
           n + 4 \<mapsto> FromForward, n + 5 \<mapsto> FromAccuracy),
        next_handle := n + 6,
        calls := calls s @ [ForwardTCall bI train, AccuracyCall lg bL]\<rparr>)"

text \<open>The running sums and the state after a batch \<open>(bI, bL)\<close> that is counted with
  the weight \<open>w bI\<close>.\<close>

definition batch_step ::
  "(tdata \<Rightarrow> real) \<Rightarrow> (tdata \<Rightarrow> tdata \<Rightarrow> real) \<Rightarrow> ModuleT \<Rightarrow> bool \<Rightarrow> tdata \<times> tdata
     \<Rightarrow> (real \<times> real) \<times> world \<Rightarrow> (real \<times> real) \<times> world" where
  "batch_step w af m train b ts =
     (let bI = fst b; bL = snd b; tot = fst ts; s = snd ts;
          lg = m bI train; a = af lg bL
      in ((fst tot + a * w bI, snd tot + w bI), batch_effect bI train lg bL s))"

text \<open>The \<open>j\<close>-th batch of size \<open>B\<close> cut from the data rows \<open>X\<close> and the label rows
  \<open>Y\<close>.\<close>

definition batch_at :: "row list \<Rightarrow> row list \<Rightarrow> nat \<Rightarrow> nat \<Rightarrow> tdata \<times> tdata" where
  "batch_at X Y B j = (Rows (take B (drop (j * B) X)), Rows (take B (drop (j * B) Y)))"

text \<open>The leading dimension as a \<^verbatim>\<open>float64\<close>.\<close>

definition leading :: "tdata \<Rightarrow> real" where
  "leading c = (case size0 c of None \<Rightarrow> 0 | Some n \<Rightarrow> real_of_int n)"

text \<open>The calls a list of batches gives rise to.\<close>

definition batch_calls :: "ModuleT \<Rightarrow> bool \<Rightarrow> (tdata \<times> tdata) list \<Rightarrow> call list" where
  "batch_calls m train bs =
     concat (map (\<lambda>b. [ForwardTCall (fst b) train, AccuracyCall (m (fst b) train) (snd b)]) bs)"

text \<open>The batches of the drop-partial policy: \<open>floor (N / B)\<close> full batches, none for
  a batch size that is not positive.\<close>

definition drop_partial :: "row list \<Rightarrow> row list \<Rightarrow> int \<Rightarrow> (tdata \<times> tdata) list" where
  "drop_partial X Y B =
     map (batch_at X Y (nat B)) [0..<(if B \<le> 0 then 0 else length X div nat B)]"

text \<open>
  \<open>released_except K s s'\<close>: between the states \<open>s\<close> and \<open>s'\<close> no object that
  existed in \<open>s\<close> was released or changed its call site, and of the objects created
  since (the numbers from \<open>next_handle s\<close> up to \<open>next_handle s'\<close>) exactly those
  whose call site is in \<open>K\<close> are still live.
\<close>

definition released_except :: "origin set \<Rightarrow> world \<Rightarrow> world \<Rightarrow> bool" where
  "released_except K s s' =
     (next_handle s \<le> next_handle s'
      \<and> (\<forall>h. h < next_handle s \<longrightarrow>
             (h \<in> live s' \<longleftrightarrow> h \<in> live s) \<and> origin_of s' h = origin_of s h)
      \<and> (\<forall>h. next_handle s \<le> h \<and> h < next_handle s' \<longrightarrow>
             (h \<in> live s' \<longleftrightarrow> (\<exists>k \<in> K. origin_of s' h = Some k))))"

text \<open>The state in which the loop of the index-based evaluator starts: gradient
  tracking is off, and the index tensor and the two shuffled tensors have been
  created.\<close>

definition idx_prologue :: "world \<Rightarrow> world" where
  "idx_prologue s =
     s\<lparr>grad_enabled := False,
       live := insert (Suc (Suc (next_handle s))) (insert (Suc (next_handle s))
                 (insert (next_handle s) (live s))),
       origin_of := (origin_of s)
         (next_handle s \<mapsto> FromRandperm, Suc (next_handle s) \<mapsto> FromIndexSelect,
          Suc (Suc (next_handle s)) \<mapsto> FromIndexSelect),
       next_handle := Suc (Suc (Suc (next_handle s)))\<rparr>"

text \<open>The number of rows of every batch handed to \<^verbatim>\<open>ForwardT\<close>, in call order.\<close>

fun rows_forwarded :: "call list \<Rightarrow> nat list" where
  "rows_forwarded [] = []"
| "rows_forwarded (ForwardTCall (Rows rs) t # cs) = length rs # rows_forwarded cs"
| "rows_forwarded (c # cs) = rows_forwarded cs"

text \<open>The rows of every batch handed to \<^verbatim>\<open>ForwardT\<close>, and the rows of every label
  batch handed to \<^verbatim>\<open>AccuracyForLogits\<close>, in call order.\<close>

fun batches_forwarded :: "call list \<Rightarrow> row list list" where
  "batches_forwarded [] = []"
| "batches_forwarded (ForwardTCall (Rows rs) t # cs) = rs # batches_forwarded cs"
| "batches_forwarded (c # cs) = batches_forwarded cs"

fun labels_scored :: "call list \<Rightarrow> row list list" where
  "labels_scored [] = []"
| "labels_scored (AccuracyCall lg (Rows rs) # cs) = rs # labels_scored cs"
| "labels_scored (c # cs) = labels_scored cs"

section \<open>Properties of the initializers\<close>

subsection \<open>The 64-bit factorial\<close>

lemma unat_mult64: "unat ((n::64 word) * m) = (unat n * unat m) mod 2 ^ 64"
  by (simp add: unat_word_ariths)

lemma fact_pred: "0 < k \<Longrightarrow> k * fact (k - 1) = (fact k :: nat)"
  by (cases k) simp_all

lemma factorial_0: "factorial 0 = 1"
  by (subst factorial.simps) simp

lemma factorial_pos: "n \<noteq> 0 \<Longrightarrow> factorial n = n * factorial (n - 1)"
  by (subst factorial.simps) (simp add: word_gt_0)

lemma unat_factorial: "unat (factorial n) = fact (unat n) mod 2 ^ 64"
proof (induction n rule: factorial.induct)
  case (1 n)
  show ?case
  proof (cases "n = 0")
    case True
    then show ?thesis by (simp add: factorial_0)
  next
    case False
    then have gt: "0 < n" by (simp add: word_gt_0)
    have pred: "unat (n - 1) = unat n - 1" using False by (rule unat_minus_one)
    have pos: "0 < unat n" using False by (simp add: unat_gt_0)
    have ih: "unat (factorial (n - 1)) = fact (unat n - 1) mod 2 ^ 64"
      using 1 [OF gt] by (simp only: pred)
    have "factorial n = n * factorial (n - 1)"
      using False by (rule factorial_pos)
    then have "unat (factorial n) = unat (n * factorial (n - 1))"
      by (rule arg_cong)
    also have "\<dots> = (unat n * unat (factorial (n - 1))) mod 2 ^ 64"
      by (rule unat_mult64)
    also have "\<dots> = (unat n * (fact (unat n - 1) mod 2 ^ 64)) mod 2 ^ 64"
      by (simp only: ih)
    also have "\<dots> = (unat n * fact (unat n - 1)) mod 2 ^ 64"
      by (rule mod_mult_right_eq)
    also have "\<dots> = fact (unat n) mod 2 ^ 64"
      using pos by (simp only: fact_pred)
    finally show ?thesis .
  qed
qed

lemma fact20: "(fact 20 :: nat) = 2432902008176640000"
  by (simp add: fact_numeral)

lemma fact21: "(fact 21 :: nat) = 51090942171709440000"
  by (simp add: fact_numeral)

lemma fact21_real: "(fact 21 :: real) = 51090942171709440000"
  by (simp add: fact_numeral)

lemma fact_small: "n \<le> 20 \<Longrightarrow> (fact n :: nat) < 2 ^ 64"
proof -
  assume "n \<le> 20"
  then have "(fact n :: nat) \<le> fact 20" by (rule fact_mono)
  then show ?thesis by (simp add: fact20)
qed

lemma unat_rank:
  assumes "1 \<le> length dims" "length dims \<le> 21"
  shows "unat (word_of_int (int (length dims) - 1) :: uint64) = length dims - 1"
proof -
  have e: "int (length dims) - 1 = int (length dims - 1)"
    using assms(1) by linarith
  have "(word_of_int (int (length dims) - 1) :: uint64) = word_of_int (int (length dims - 1))"
    by (simp only: e)
  also have "\<dots> = of_nat (length dims - 1)"
    by (rule of_int_of_nat_eq)
  finally have w: "(word_of_int (int (length dims) - 1) :: uint64) = of_nat (length dims - 1)" .
  have "unat (of_nat (length dims - 1) :: uint64) = length dims - 1"
    using assms(2) by (simp only: unat_of_nat) simp
  then show ?thesis by (simp only: w)
qed

lemma fanIn_small:
  assumes "1 \<le> length dims" "length dims \<le> 21"
  shows "unat (factorial (word_of_int (int (length dims) - 1))) = fact (length dims - 1)"
proof -
  let ?w = "word_of_int (int (length dims) - 1) :: uint64"
  have lt: "(fact (length dims - 1) :: nat) < 2 ^ 64"
    using assms by (intro fact_small) simp
  have "unat (factorial ?w) = fact (length dims - 1) mod 2 ^ 64"
    using unat_factorial [of ?w] unfolding unat_rank [OF assms] .
  also have "\<dots> = fact (length dims - 1)"
    using lt by (rule mod_less)
  finally show ?thesis .
qed

lemma kaiming_bound_small:
  assumes "1 \<le> length dims" "length dims \<le> 21"
  shows "kaiming_bound (factorial (word_of_int (int (length dims) - 1)))
         = Fin (sqrt (1 / fact (length dims - 1)))"
proof -
  let ?w = "factorial (word_of_int (int (length dims) - 1))"
  have u: "unat ?w = fact (length dims - 1)" by (rule fanIn_small [OF assms])
  have nz: "?w \<noteq> 0"
  proof
    assume z: "?w = 0"
    have "unat ?w = 0" unfolding z by simp
    with u have "(fact (length dims - 1) :: nat) = 0" by (simp only:)
    then show False by simp
  qed
  show ?thesis
    unfolding kaiming_bound_def by (simp only: nz if_False u of_nat_fact)
qed

lemma uniform_within:
  assumes "0 \<le> b" "0 \<le> (p::real)" "p < 1"
  shows "- b \<le> - b + (b - - b) * p" and "- b + (b - - b) * p \<le> b"
proof -
  have "0 \<le> (b + b) * p" using assms by simp
  then show "- b \<le> - b + (b - - b) * p" by simp
  have "(b + b) * p \<le> (b + b) * 1"
    using assms by (intro mult_left_mono) simp_all
  then show "- b + (b - - b) * p \<le> b" by simp
qed

lemma kaiming_run:
  assumes kb: "kaiming_bound (factorial (word_of_int (int (length dims) - 1))) = Fin b"
    and ne: "dims \<noteq> []" and nn: "\<not> list_ex (\<lambda>d. d < 0) dims"
  shows "kaimingUniformInit_InitTensor u dims dv =
     Inr \<lparr>shape = dims,
          elems = map (\<lambda>i. - b + (b - - b) * u i) [0..<nat (prod_list dims)],
          placed = dv\<rparr>"
proof -
  have z: "MustZeros dims dv =
           Inr \<lparr>shape = dims, elems = replicate (nat (prod_list dims)) 0, placed = dv\<rparr>"
    using nn by (simp add: MustZeros_def FlattenDim_def)
  have "kaimingUniformInit_InitTensor u dims dv =
     Uniform_inplace u (f64_neg (Fin b)) (Fin b)
       \<lparr>shape = dims, elems = replicate (nat (prod_list dims)) 0, placed = dv\<rparr>"
    unfolding kaimingUniformInit_InitTensor_def Let_def kb z using ne by simp
  also have "\<dots> = Inr \<lparr>shape = dims,
          elems = map (\<lambda>i. - b + (b - - b) * u i) [0..<nat (prod_list dims)],
          placed = dv\<rparr>"
    unfolding Uniform_inplace_def f64_neg_def by simp
  finally show ?thesis .
qed

lemma uniform_all_within:
  assumes b0: "0 \<le> (b::real)" and u: "\<forall>i. 0 \<le> u i \<and> u i < 1"
  shows "list_all (\<lambda>x. - b \<le> x \<and> x \<le> b) (map (\<lambda>i. - b + (b - - b) * u i) [0..<n])"
  unfolding list_all_iff
proof
  fix x assume "x \<in> set (map (\<lambda>i. - b + (b - - b) * u i) [0..<n])"
  then obtain i where x: "x = - b + (b - - b) * u i" by auto
  from u have "0 \<le> u i" "u i < 1" by auto
  from uniform_within [OF b0 this] show "- b \<le> x \<and> x \<le> b"
    unfolding x by blast
qed

subsection \<open>Claim C4: the Normal initializer\<close>

text \<open>
  Claim C4 says that \<^verbatim>\<open>InitTensor\<close> and \<^verbatim>\<open>Set\<close> of the Normal initializer
  fill the tensor with \<open>product(shape)\<close> values \<open>mean + stdev * z\<close>. In the code
  neither method gets as far as a value: the generator is the zero value
  \<^verbatim>\<open>rand.Rand{}\<close>, so for every shape with at least one element the first
  \<^verbatim>\<open>rd.NormFloat64()\<close> of the loop panics with a nil pointer dereference, whatever
  the mean and the standard deviation. \<^verbatim>\<open>InitTensor\<close> returns no tensor and
  \<^verbatim>\<open>Set\<close> does not reach the copy into its tensor.
\<close>

theorem randnInit_panics_on_first_draw:
  assumes "0 < FlattenDim dims"
  shows "randnInit_InitTensor r dims dv = Inl NilDereference
       \<and> randnInit_Set r \<lparr>shape = dims, elems = es, placed = dv\<rparr> = Inl NilDereference"
proof -
  obtain k where k: "nat (FlattenDim dims) = Suc k"
    using assms by (cases "nat (FlattenDim dims)") auto
  have draw: "randn_data Rand_zero r (nat (FlattenDim dims)) [] = Inl NilDereference"
    unfolding k by (simp add: NormFloat64_def Rand_zero_def)
  from assms draw show ?thesis
    by (simp add: randnInit_InitTensor_def randnInit_Set_def)
qed

text \<open>Witness for C4: mean 10, standard deviation 1 and the shape \<open>[2]\<close>.\<close>

theorem randnInit_panics_on_first_draw_witness:
  "randnInit_InitTensor (NewRandnInit 10 1) [2] CPU = Inl NilDereference
   \<and> randnInit_Set (NewRandnInit 10 1) \<lparr>shape = [2], elems = [0, 0], placed = CPU\<rparr>
     = Inl NilDereference"
  using randnInit_panics_on_first_draw [of "[2]" "NewRandnInit 10 1" CPU "[0, 0]"]
  by (simp add: FlattenDim_def)

subsection \<open>Claim C7: the bound of KaimingUniform\<close>

text \<open>
  Claim C7, as amended: for every shape of rank 1 to 21 without a negative dimension,
  and every sequence of draws in \<open>[0, 1)\<close>, \<^verbatim>\<open>KaimingUniform.InitTensor\<close> computes
  the bound \<open>sqrt (1 / factorial (rank - 1))\<close>, returns a tensor of that shape on the
  device with \<open>product(shape)\<close> elements, all within \<open>[-bound, bound]\<close>; for rank 1
  the bound is 1.
\<close>

theorem kaimingUniform_bound_up_to_rank_21:
  assumes rank: "1 \<le> length dims" "length dims \<le> 21"
    and dims: "list_all (\<lambda>d. 0 \<le> d) dims"
    and u: "\<forall>i. 0 \<le> u i \<and> u i < 1"
  shows "kaiming_bound (factorial (word_of_int (int (length dims) - 1)))
           = Fin (sqrt (1 / fact (length dims - 1)))
       \<and> (\<exists>t. kaimingUniformInit_InitTensor u dims dv = Inr t
             \<and> shape t = dims \<and> placed t = dv
             \<and> int (length (elems t)) = prod_list dims
             \<and> list_all (\<lambda>x. - sqrt (1 / fact (length dims - 1)) \<le> x
                              \<and> x \<le> sqrt (1 / fact (length dims - 1))) (elems t))
       \<and> (if length dims = 1
           then kaiming_bound (factorial (word_of_int (int (length dims) - 1))) = Fin 1
           else True)"
proof -
  define b :: real where "b = sqrt (1 / fact (length dims - 1))"
  have kb: "kaiming_bound (factorial (word_of_int (int (length dims) - 1))) = Fin b"
    unfolding b_def by (rule kaiming_bound_small [OF rank])
  have b0: "0 \<le> b" unfolding b_def by simp
  have nn: "\<not> list_ex (\<lambda>d. d < 0) dims"
    using dims by (auto simp: list_all_iff list_ex_iff)
  have p0: "0 \<le> prod_list dims"
    using dims by (induction dims) simp_all
  have ne: "dims \<noteq> []" using rank by auto
  let ?t = "\<lparr>shape = dims,
          elems = map (\<lambda>i. - b + (b - - b) * u i) [0..<nat (prod_list dims)],
          placed = dv\<rparr>"
  have run: "kaimingUniformInit_InitTensor u dims dv = Inr ?t"
    by (rule kaiming_run [OF kb ne nn])
  have within: "list_all (\<lambda>x. - b \<le> x \<and> x \<le> b) (elems ?t)"
    using uniform_all_within [OF b0 u] by simp
  have len: "int (length (elems ?t)) = prod_list dims"
    using p0 by simp
  have ex: "\<exists>t. kaimingUniformInit_InitTensor u dims dv = Inr t
             \<and> shape t = dims \<and> placed t = dv
             \<and> int (length (elems t)) = prod_list dims
             \<and> list_all (\<lambda>x. - b \<le> x \<and> x \<le> b) (elems t)"
    using run within len by (intro exI [of _ ?t]) simp
  have one: "length dims = 1 \<Longrightarrow> b = 1" unfolding b_def by simp
  have third: "(if length dims = 1
           then kaiming_bound (factorial (word_of_int (int (length dims) - 1))) = Fin 1
           else True)"
  proof (cases "length dims = 1")
    case True
    show ?thesis unfolding if_P [OF True] by (simp only: kb one [OF True])
  next
    case False
    show ?thesis unfolding if_not_P [OF False] by (rule TrueI)
  qed
  from kb ex third show ?thesis unfolding b_def by (intro conjI)
qed

text \<open>Witness for C7: the shape \<open>[2, 3]\<close> with every draw \<open>1/2\<close>; the bound is
  \<open>sqrt (1 / 1!) = 1\<close>.\<close>

theorem kaimingUniform_bound_up_to_rank_21_witness:
  "kaiming_bound (factorial (word_of_int (int (length [2, 3 :: int]) - 1))) = Fin 1
   \<and> (\<exists>t. kaimingUniformInit_InitTensor (\<lambda>i. 1 / 2) [2, 3] CPU = Inr t
       \<and> shape t = [2, 3] \<and> placed t = CPU \<and> int (length (elems t)) = 6
       \<and> list_all (\<lambda>x. - 1 \<le> x \<and> x \<le> 1) (elems t))"
  using kaimingUniform_bound_up_to_rank_21 [of "[2, 3]" "\<lambda>i. 1 / 2" CPU] by simp

text \<open>
  Counterexample to C7 as stated (every rank from 1 on): at rank 22 the 64-bit product
  wraps, \<open>21! mod 2^64 = 14197454024290336768\<close>, and the bound the code uses is
  larger than \<open>sqrt (1 / 21!)\<close>. For the shape of 22 ones and the draw 0 the only
  element is the lower end of the code's range, which lies below \<open>- sqrt (1 / 21!)\<close>.
\<close>

theorem kaimingUniform_rank_22_leaves_the_interval:
  "kaimingUniformInit_InitTensor (\<lambda>i. 0) (replicate 22 1) CPU
   = Inr \<lparr>shape = replicate 22 1, elems = [- sqrt (1 / 14197454024290336768)], placed = CPU\<rparr>
   \<and> - sqrt (1 / 14197454024290336768) < - sqrt (1 / fact 21)"
proof -
  let ?dims = "replicate 22 1 :: int list"
  have u: "unat (factorial (21 :: uint64)) = 14197454024290336768"
    by (simp add: unat_factorial fact21)
  then have nz: "factorial (21 :: uint64) \<noteq> 0" by auto
  have "kaiming_bound (factorial 21) = Fin (sqrt (1 / 14197454024290336768))"
    using nz by (simp add: kaiming_bound_def u)
  then have kb: "kaiming_bound (factorial (word_of_int (int (length ?dims) - 1)))
                 = Fin (sqrt (1 / 14197454024290336768))"
    by simp
  have ones: "prod_list (replicate n (1 :: int)) = 1" for n
    by (induction n) simp_all
  have ne: "?dims \<noteq> []" by simp
  have nn: "\<not> list_ex (\<lambda>d. d < 0) ?dims" by (simp add: list_ex_iff)
  have run: "kaimingUniformInit_InitTensor (\<lambda>i. 0) ?dims CPU
        = Inr \<lparr>shape = ?dims, elems = [- sqrt (1 / 14197454024290336768)], placed = CPU\<rparr>"
    using kaiming_run [OF kb ne nn, of "\<lambda>i. 0" CPU] by (simp add: ones)
  have "sqrt (1 / fact 21) < sqrt (1 / 14197454024290336768)"
    by (simp add: fact21_real)
  then have less: "- sqrt (1 / 14197454024290336768) < - sqrt (1 / fact 21)"
    by simp
  from run less show ?thesis by (intro conjI)
qed

section \<open>Properties of the optional-module combinators\<close>

text \<open>
  Claim C6, as amended: with a module option present \<^verbatim>\<open>ApplyOpt\<close> and
  \<^verbatim>\<open>ApplyOptT\<close> return the forward result of the first option's module; with no
  option they return a shallow clone of the input, that is a new tensor object with
  the contents, the device and the storage of the input (an alias, not a
  materializing copy).
\<close>

theorem ApplyOpt_forwards_or_shallow_clones:
  "ApplyOpt ts (WithModule m # opts) s = Forward m ts s
   \<and> ApplyOptT ts train (WithModuleT mt # optsT) s = ForwardT mt ts train s
   \<and> ApplyOpt ts [] s =
       (Inr (ts\<lparr>ctensor := next_handle s\<rparr>),
        s\<lparr>live := insert (next_handle s) (live s),
          origin_of := (origin_of s)(next_handle s \<mapsto> FromShallowClone),
          next_handle := Suc (next_handle s)\<rparr>)
   \<and> ApplyOptT ts train [] s = ApplyOpt ts [] s"
  by (simp add: ApplyOpt_def ApplyOptT_def WithModule_def WithModuleT_def
      MustShallowClone_def alloc_def Let_def)

text \<open>
  Counterexample to C6 as stated (an independently owned copy, not an alias): the
  tensor returned for the input object 0 is the new object 1 on the storage 0 of the
  input.
\<close>

theorem ApplyOpt_without_module_aliases_input:
  "(case ApplyOpt \<lparr>ctensor = 0, storage = 0, contents = Rows [[1]], tdevice = CPU\<rparr> []
           \<lparr>live = {0}, origin_of = Map.empty, next_handle = 1, grad_enabled = True, calls = []\<rparr>
    of (Inr t, s') \<Rightarrow> storage t = 0 \<and> ctensor t = 1 | (Inl e, s') \<Rightarrow> False)
   \<and> (case ApplyOptT \<lparr>ctensor = 0, storage = 0, contents = Rows [[1]], tdevice = CPU\<rparr> False []
           \<lparr>live = {0}, origin_of = Map.empty, next_handle = 1, grad_enabled = True, calls = []\<rparr>
    of (Inr t, s') \<Rightarrow> storage t = 0 \<and> ctensor t = 1 | (Inl e, s') \<Rightarrow> False)"
  by (simp add: ApplyOpt_def ApplyOptT_def MustShallowClone_def alloc_def Let_def)

section \<open>The loops of the evaluators in closed form\<close>

text \<open>
  The lemmas of this section show that, on tensors of rank one or more, each loop is
  the left fold of \<^const>\<open>batch_step\<close> over the list of its batches, and collect
  what such a fold does to the state.
\<close>

lemma idx_body_run:
  assumes I: "contents imagesTs = Rows I" and L: "contents labelsTs = Rows L"
    and X: "contents xs = Rows X"
    and rng: "0 \<le> start" "0 \<le> sz" "start + sz \<le> int (length I)" "start + sz \<le> int (length L)"
  shows "idx_body af m d xs imagesTs labelsTs start sz tot s =
           (Inr (fst (batch_step (\<lambda>b. real (length X)) af m True
                   (Rows (take (nat sz) (drop (nat start) I)), Rows (take (nat sz) (drop (nat start) L)))
                   (tot, s))),
            snd (batch_step (\<lambda>b. real (length X)) af m True
                   (Rows (take (nat sz) (drop (nat start) I)), Rows (take (nat sz) (drop (nat start) L)))
                   (tot, s)))"
proof -
  have "idx_body af m d xs imagesTs labelsTs start sz tot s =
     (Inr (fst tot + af (m (Rows (take (nat sz) (drop (nat start) I))) True)
                        (Rows (take (nat sz) (drop (nat start) L))) * real (length X),
           snd tot + real (length X)),
      batch_effect (Rows (take (nat sz) (drop (nat start) I))) True
        (m (Rows (take (nat sz) (drop (nat start) I))) True)
        (Rows (take (nat sz) (drop (nat start) L))) s)"
    using rng
    apply (simp add: idx_body_def Idx_def NewNarrow_def MustNarrow_def I L X alloc_def Let_def
      andThen_def MustTo_def MustDrop_def ret_def panic_def ForwardT_def AccuracyForLogits_def
      Values_0_def MustSize_0_def batch_effect_def)
    apply (intro world.equality)
    apply (auto simp: eval_nat_numeral)
    done
  then show ?thesis by (simp add: batch_step_def Let_def)
qed


lemma logits_loop_stop:
  assumes "iter_batchSize it \<le> 0
           \<or> iter_totalSize it - iter_batchIndex it * iter_batchSize it < iter_batchSize it"
  shows "logits_loop af m d it tot s = (Inr tot, s)"
  using assms
  by (subst logits_loop.simps) (auto simp: Next_def Let_def ret_def)

lemma logits_loop_step:
  assumes X: "contents (iter_xs it) = Rows X" and Y: "contents (iter_ys it) = Rows Y"
    and pos: "0 < iter_batchSize it" and bi: "0 \<le> iter_batchIndex it"
    and roomX: "iter_batchIndex it * iter_batchSize it + iter_batchSize it \<le> int (length X)"
    and roomY: "iter_batchIndex it * iter_batchSize it + iter_batchSize it \<le> int (length Y)"
    and total: "iter_totalSize it = int (length X)"
  shows "logits_loop af m d it tot s =
           logits_loop af m d (it\<lparr>iter_batchIndex := iter_batchIndex it + 1\<rparr>)
             (fst tot
                + af (m (Rows (take (nat (iter_batchSize it))
                                 (drop (nat (iter_batchIndex it * iter_batchSize it)) X))) False)
                     (Rows (take (nat (iter_batchSize it))
                                 (drop (nat (iter_batchIndex it * iter_batchSize it)) Y)))
                  * real (min (nat (iter_batchSize it)) (length X - nat (iter_batchIndex it * iter_batchSize it))),
              snd tot + real (min (nat (iter_batchSize it)) (length X - nat (iter_batchIndex it * iter_batchSize it))))
             (batch_effect
                (Rows (take (nat (iter_batchSize it))
                         (drop (nat (iter_batchIndex it * iter_batchSize it)) X))) False
                (m (Rows (take (nat (iter_batchSize it))
                            (drop (nat (iter_batchIndex it * iter_batchSize it)) X))) False)
                (Rows (take (nat (iter_batchSize it))
                         (drop (nat (iter_batchIndex it * iter_batchSize it)) Y))) s)"
proof -
  have start0: "0 \<le> iter_batchIndex it * iter_batchSize it"
    using pos bi by simp
  have nostop: "\<not> (iter_batchSize it \<le> 0
           \<or> iter_totalSize it - iter_batchIndex it * iter_batchSize it < iter_batchSize it)"
    using pos roomX total by simp
  have eff: "\<And>bI lg bL.
     s\<lparr>calls := calls s @ [ForwardTCall bI False, AccuracyCall lg bL],
       origin_of := (origin_of s)
         (next_handle s \<mapsto> FromNarrow, Suc (next_handle s) \<mapsto> FromNarrow,
          Suc (Suc (next_handle s)) \<mapsto> FromTo, Suc (Suc (Suc (next_handle s))) \<mapsto> FromTo,
          Suc (Suc (Suc (Suc (next_handle s)))) \<mapsto> FromForward,
          Suc (Suc (Suc (Suc (Suc (next_handle s))))) \<mapsto> FromAccuracy),
       next_handle := Suc (Suc (Suc (Suc (Suc (Suc (next_handle s)))))),
       live := insert (Suc (Suc (Suc (Suc (Suc (next_handle s))))))
               (insert (Suc (Suc (Suc (Suc (next_handle s)))))
                 (insert (Suc (Suc (Suc (next_handle s))))
                   (insert (Suc (Suc (next_handle s)))
                     (insert (Suc (next_handle s)) (insert (next_handle s) (live s)))
                    - {next_handle s}) - {Suc (next_handle s)}))
              - {Suc (Suc (next_handle s))} - {Suc (Suc (Suc (next_handle s)))}
              - {Suc (Suc (Suc (Suc (Suc (next_handle s)))))}\<rparr>
     = batch_effect bI False lg bL s"
    unfolding batch_effect_def Let_def
    by (intro world.equality) (auto simp: eval_nat_numeral)
  show ?thesis
    apply (subst logits_loop.simps)
    using nostop start0 roomX roomY
    apply (simp add: Next_def Let_def MustNarrow_def X Y total alloc_def andThen_def ret_def
        panic_def logits_body_def MustSize_0_def MustTo_def MustDrop_def ForwardT_def
        AccuracyForLogits_def Values_0_def eff)
    done
qed


lemma beyond_last_batch:
  assumes "0 < (b::nat)" "N div b \<le> j"
  shows "N < (j + 1) * b"
proof -
  have "N < b + N div b * b" using assms(1) by (rule dividend_less_div_times)
  also have "\<dots> = (N div b + 1) * b" by simp
  also have "\<dots> \<le> (j + 1) * b" using assms(2) by (intro mult_le_mono1) simp
  finally show ?thesis .
qed

lemma within_last_batch:
  assumes "j < N div (b::nat)"
  shows "(j + 1) * b \<le> N"
proof -
  have "(j + 1) * b \<le> N div b * b" using assms by (intro mult_le_mono1) simp
  also have "\<dots> \<le> N" by (rule div_times_less_eq_dividend)
  finally show ?thesis .
qed

lemma logits_loop_fold:
  assumes X: "contents (iter_xs it) = Rows X" and Y: "contents (iter_ys it) = Rows Y"
    and total: "iter_totalSize it = int (length X)" and lenY: "length Y = length X"
    and bi: "iter_batchIndex it = int j" and bs: "iter_batchSize it = int b" and pos: "0 < b"
  shows "logits_loop af m d it tot s =
           (Inr (fst (fold (batch_step leading af m False)
                        (map (batch_at X Y b) [j..<length X div b]) (tot, s))),
            snd (fold (batch_step leading af m False)
                        (map (batch_at X Y b) [j..<length X div b]) (tot, s)))"
  using X Y total bi bs
proof (induction "length X div b - j" arbitrary: j it tot s)
  case 0
  then have "length X div b \<le> j" by simp
  from beyond_last_batch [OF pos this] have "int (length X) < int ((j + 1) * b)"
    by (simp only: of_nat_less_iff)
  then have "iter_totalSize it - iter_batchIndex it * iter_batchSize it < iter_batchSize it"
    using 0 by (simp add: algebra_simps)
  then have stop: "logits_loop af m d it tot s = (Inr tot, s)"
    by (intro logits_loop_stop) simp
  have emp: "[j..<length X div b] = []" using \<open>length X div b \<le> j\<close> by simp
  show ?case unfolding stop emp by simp
next
  case (Suc k)
  then have lt: "j < length X div b" by simp
  from within_last_batch [OF lt] have le: "(j + 1) * b \<le> length X" .
  then have "int ((j + 1) * b) \<le> int (length X)" by (simp only: of_nat_le_iff)
  then have room: "iter_batchIndex it * iter_batchSize it + iter_batchSize it \<le> int (length X)"
    using Suc.prems by (simp add: algebra_simps)
  have st: "nat (int j * int b) = j * b"
    by (simp add: nat_mult_distrib)
  have full: "min b (length X - j * b) = b" "min (length X - j * b) b = b"
    using le by simp_all
  let ?it' = "it\<lparr>iter_batchIndex := iter_batchIndex it + 1\<rparr>"
  let ?b = "batch_at X Y b j"
  have step: "logits_loop af m d it tot s =
      logits_loop af m d ?it' (fst (batch_step leading af m False ?b (tot, s)))
        (snd (batch_step leading af m False ?b (tot, s)))"
    using logits_loop_step [of it X Y af m d tot s] Suc.prems room pos lenY
    by (simp add: st full batch_step_def batch_at_def Let_def leading_def)
  have k: "k = length X div b - Suc j" using Suc.hyps(2) by simp
  have ih: "logits_loop af m d ?it' (fst (batch_step leading af m False ?b (tot, s)))
        (snd (batch_step leading af m False ?b (tot, s)))
      = (Inr (fst (fold (batch_step leading af m False)
                        (map (batch_at X Y b) [Suc j..<length X div b])
                        (batch_step leading af m False ?b (tot, s)))),
            snd (fold (batch_step leading af m False)
                        (map (batch_at X Y b) [Suc j..<length X div b])
                        (batch_step leading af m False ?b (tot, s))))"
    using Suc.hyps(1) [OF k, of ?it' "fst (batch_step leading af m False ?b (tot, s))"
        "snd (batch_step leading af m False ?b (tot, s))"] Suc.prems
    by simp
  have cons: "[j..<length X div b] = j # [Suc j..<length X div b]"
    using lt by (rule upt_conv_Cons)
  show ?case unfolding step ih cons by simp
qed


lemma idx_loop_done:
  assumes "batches \<le> i"
  shows "idx_loop af m d xs imagesTs labelsTs samples batchSize batches i batchIndex tot s
         = (Inr tot, s)"
  using assms by (subst idx_loop.simps) simp

lemma idx_loop_fold:
  assumes I: "contents imagesTs = Rows I" and L: "contents labelsTs = Rows L"
    and X: "contents xs = Rows X"
    and fitI: "nb * b \<le> length I" and fitL: "nb * b \<le> length L" and fitN: "nb * b \<le> N"
    and pos: "0 < b"
  shows "idx_loop af m d xs imagesTs labelsTs (int N) (int b) (int nb) (int j) (int j) tot s =
           (Inr (fst (fold (batch_step (\<lambda>c. real (length X)) af m True)
                        (map (batch_at I L b) [j..<nb]) (tot, s))),
            snd (fold (batch_step (\<lambda>c. real (length X)) af m True)
                        (map (batch_at I L b) [j..<nb]) (tot, s)))"
proof (induction "nb - j" arbitrary: j tot s)
  case 0
  then have "int nb \<le> int j" by simp
  then have stop: "idx_loop af m d xs imagesTs labelsTs (int N) (int b) (int nb) (int j) (int j) tot s
                   = (Inr tot, s)"
    by (rule idx_loop_done)
  have emp: "[j..<nb] = []" using 0 by simp
  show ?case unfolding stop emp by simp
next
  case (Suc k)
  then have lt: "j < nb" by simp
  then have le: "(j + 1) * b \<le> nb * b" by (intro mult_le_mono1) simp
  have st: "nat (int j * int b) = j * b" "nat (int b) = b"
    by (simp_all add: nat_mult_distrib)
  have roomN: "\<not> int N - int j * int b < int b"
  proof -
    from le fitN have "(j + 1) * b \<le> N" by simp
    then have "int ((j + 1) * b) \<le> int N" by (simp only: of_nat_le_iff)
    then show ?thesis by (simp add: algebra_simps)
  qed
  have roomI: "int j * int b + int b \<le> int (length I)"
  proof -
    from le fitI have "(j + 1) * b \<le> length I" by simp
    then have "int ((j + 1) * b) \<le> int (length I)" by (simp only: of_nat_le_iff)
    then show ?thesis by (simp add: algebra_simps)
  qed
  have roomL: "int j * int b + int b \<le> int (length L)"
  proof -
    from le fitL have "(j + 1) * b \<le> length L" by simp
    then have "int ((j + 1) * b) \<le> int (length L)" by (simp only: of_nat_le_iff)
    then show ?thesis by (simp add: algebra_simps)
  qed
  let ?b = "batch_at I L b j"
  let ?R = "batch_step (\<lambda>c. real (length X)) af m True ?b (tot, s)"
  have body: "idx_body af m d xs imagesTs labelsTs (int j * int b) (int b) tot s
              = (Inr (fst ?R), snd ?R)"
    using idx_body_run [OF I L X _ _ roomI roomL, of af m d tot s]
    by (simp add: st batch_at_def)
  have step: "idx_loop af m d xs imagesTs labelsTs (int N) (int b) (int nb) (int j) (int j) tot s
      = idx_loop af m d xs imagesTs labelsTs (int N) (int b) (int nb) (int (Suc j)) (int (Suc j))
          (fst ?R) (snd ?R)"
    using lt roomN by (subst idx_loop.simps) (simp add: Let_def body add.commute)
  have k: "k = nb - Suc j" using Suc.hyps(2) by simp
  have cons: "[j..<nb] = j # [Suc j..<nb]" using lt by (rule upt_conv_Cons)
  show ?case unfolding step Suc.hyps(1) [OF k] cons by simp
qed

lemma fold_batch_calls:
  "calls (snd (fold (batch_step w af m train) bs (tot, s))) = calls s @ batch_calls m train bs"
  by (induction bs arbitrary: tot s)
     (simp_all add: batch_calls_def batch_step_def batch_effect_def Let_def)

lemma fold_batch_next:
  "next_handle (snd (fold (batch_step w af m train) bs (tot, s))) = next_handle s + 6 * length bs"
  by (induction bs arbitrary: tot s)
     (simp_all add: batch_step_def batch_effect_def Let_def)


lemma released_except_trans:
  assumes "released_except K s s1" "released_except K s1 s2"
  shows "released_except K s s2"
proof -
  have n01: "next_handle s \<le> next_handle s1" and n12: "next_handle s1 \<le> next_handle s2"
    using assms by (simp_all add: released_except_def)
  have old1: "\<And>h. h < next_handle s \<Longrightarrow>
                (h \<in> live s1 \<longleftrightarrow> h \<in> live s) \<and> origin_of s1 h = origin_of s h"
    using assms(1) by (simp add: released_except_def)
  have old2: "\<And>h. h < next_handle s1 \<Longrightarrow>
                (h \<in> live s2 \<longleftrightarrow> h \<in> live s1) \<and> origin_of s2 h = origin_of s1 h"
    using assms(2) by (simp add: released_except_def)
  have new1: "\<And>h. next_handle s \<le> h \<Longrightarrow> h < next_handle s1 \<Longrightarrow>
                (h \<in> live s1 \<longleftrightarrow> (\<exists>k \<in> K. origin_of s1 h = Some k))"
    using assms(1) by (simp add: released_except_def)
  have new2: "\<And>h. next_handle s1 \<le> h \<Longrightarrow> h < next_handle s2 \<Longrightarrow>
                (h \<in> live s2 \<longleftrightarrow> (\<exists>k \<in> K. origin_of s2 h = Some k))"
    using assms(2) by (simp add: released_except_def)
  have a: "next_handle s \<le> next_handle s2" using n01 n12 by simp
  have b: "(h \<in> live s2 \<longleftrightarrow> h \<in> live s) \<and> origin_of s2 h = origin_of s h"
    if "h < next_handle s" for h
  proof -
    from that n01 have "h < next_handle s1" by simp
    from old2 [OF this] old1 [OF that] show ?thesis by simp
  qed
  have c: "h \<in> live s2 \<longleftrightarrow> (\<exists>k \<in> K. origin_of s2 h = Some k)"
    if "next_handle s \<le> h" "h < next_handle s2" for h
  proof (cases "h < next_handle s1")
    case True
    from old2 [OF True] new1 [OF that(1) True] show ?thesis by simp
  next
    case False
    then have "next_handle s1 \<le> h" by simp
    from new2 [OF this that(2)] show ?thesis .
  qed
  show ?thesis
    unfolding released_except_def using a b c by blast
qed

lemma batch_effect_released:
  assumes "FromForward \<in> K" "FromNarrow \<notin> K" "FromTo \<notin> K" "FromAccuracy \<notin> K"
  shows "released_except K s (batch_effect bI train lg bL s)"
  using assms unfolding released_except_def batch_effect_def Let_def
  by (auto simp: eval_nat_numeral)


lemma released_except_refl: "released_except K s s"
  by (auto simp: released_except_def)

lemma fold_batch_released:
  assumes "FromForward \<in> K" "FromNarrow \<notin> K" "FromTo \<notin> K" "FromAccuracy \<notin> K"
  shows "released_except K s (snd (fold (batch_step w af m train) bs (tot, s)))"
proof (induction bs arbitrary: tot s)
  case Nil
  show ?case by (simp add: released_except_refl)
next
  case (Cons b bs)
  let ?s1 = "batch_effect (fst b) train (m (fst b) train) (snd b) s"
  have one: "released_except K s ?s1" by (rule batch_effect_released [OF assms])
  have "fold (batch_step w af m train) (b # bs) (tot, s)
        = fold (batch_step w af m train) bs
            ((fst tot + af (m (fst b) train) (snd b) * w (fst b), snd tot + w (fst b)), ?s1)"
    by (simp add: batch_step_def Let_def)
  then show ?case
    using released_except_trans [OF one Cons.IH] by simp
qed

lemma go_div_nat: "0 < B \<Longrightarrow> go_div (int N) B = int (N div nat B)"
  by (cases "N = 0") (simp_all add: go_div_def zdiv_int)

lemma BatchAccuracyForLogits_run:
  assumes X: "contents xs = Rows X" and Y: "contents ys = Rows Y" and len: "length Y = length X"
  shows "BatchAccuracyForLogits af m xs ys d B s =
     (Inr (f64_div
            (fst (fst (fold (batch_step leading af m False) (drop_partial X Y B)
                         ((0, 0), s\<lparr>grad_enabled := False\<rparr>))))
            (snd (fst (fold (batch_step leading af m False) (drop_partial X Y B)
                         ((0, 0), s\<lparr>grad_enabled := False\<rparr>))))),
      (snd (fold (batch_step leading af m False) (drop_partial X Y B)
              ((0, 0), s\<lparr>grad_enabled := False\<rparr>)))\<lparr>grad_enabled := grad_enabled s\<rparr>)"
proof -
  let ?it = "\<lparr>iter_xs = xs, iter_ys = ys, iter_batchIndex = 0,
              iter_batchSize = B, iter_totalSize = int (length X)\<rparr>"
  let ?s1 = "s\<lparr>grad_enabled := False\<rparr>"
  have loop: "logits_loop af m d ?it (0, 0) ?s1 =
     (Inr (fst (fold (batch_step leading af m False) (drop_partial X Y B) ((0, 0), ?s1))),
      snd (fold (batch_step leading af m False) (drop_partial X Y B) ((0, 0), ?s1)))"
  proof (cases "B \<le> 0")
    case True
    then have "logits_loop af m d ?it (0, 0) ?s1 = (Inr (0, 0), ?s1)"
      by (intro logits_loop_stop) simp
    then show ?thesis using True by (simp add: drop_partial_def)
  next
    case False
    then have B: "B = int (nat B)" "0 < nat B" by simp_all
    have "logits_loop af m d ?it (0, 0) ?s1 =
       (Inr (fst (fold (batch_step leading af m False)
                    (map (batch_at X Y (nat B)) [0..<length X div nat B]) ((0, 0), ?s1))),
        snd (fold (batch_step leading af m False)
                    (map (batch_at X Y (nat B)) [0..<length X div nat B]) ((0, 0), ?s1)))"
      using B by (intro logits_loop_fold) (simp_all add: X Y len)
    then show ?thesis using False by (simp add: drop_partial_def)
  qed
  show ?thesis
    unfolding BatchAccuracyForLogits_def NewNoGradGuard_def MustNewIter2_def
    by (simp add: andThen_def MustSize_0_def X Y len ret_def loop NoGradGuard_Drop_def)
qed

lemma fold_batch_old_live:
  assumes "h < next_handle s"
  shows "h \<in> live (snd (fold (batch_step w af m train) bs (tot, s))) \<longleftrightarrow> h \<in> live s"
proof -
  have "released_except {FromForward} s (snd (fold (batch_step w af m train) bs (tot, s)))"
    by (rule fold_batch_released) simp_all
  then show ?thesis using assms by (simp add: released_except_def)
qed

lemma BatchAccuracyForLogitsIdx_run:
  assumes X: "contents xs = Rows X" and Y: "contents ys = Rows Y"
    and p: "rp (int (length X)) = p" and lenp: "length p = length X"
    and validX: "list_all (\<lambda>k. 0 \<le> k \<and> k < int (length X)) p"
    and validY: "list_all (\<lambda>k. 0 \<le> k \<and> k < int (length Y)) p"
    and pos: "0 < B"
  shows "BatchAccuracyForLogitsIdx af rp m xs ys d B s =
     (Inr (f64_div
        (fst (fst (fold (batch_step (\<lambda>c. real (length X)) af m True)
                  (drop_partial (map (\<lambda>k. X ! nat k) p) (map (\<lambda>k. Y ! nat k) p) B)
                  ((0, 0), idx_prologue s))))
        (snd (fst (fold (batch_step (\<lambda>c. real (length X)) af m True)
                  (drop_partial (map (\<lambda>k. X ! nat k) p) (map (\<lambda>k. Y ! nat k) p) B)
                  ((0, 0), idx_prologue s))))),
      (snd (fold (batch_step (\<lambda>c. real (length X)) af m True)
                  (drop_partial (map (\<lambda>k. X ! nat k) p) (map (\<lambda>k. Y ! nat k) p) B)
                  ((0, 0), idx_prologue s)))
      \<lparr>live := live (snd (fold (batch_step (\<lambda>c. real (length X)) af m True)
                  (drop_partial (map (\<lambda>k. X ! nat k) p) (map (\<lambda>k. Y ! nat k) p) B)
                  ((0, 0), idx_prologue s)))
               - {Suc (next_handle s)} - {Suc (Suc (next_handle s))}\<rparr>)"
proof -
  define s3 where "s3 = idx_prologue s"
  define R where "R = fold (batch_step (\<lambda>c. real (length X)) af m True)
                  (drop_partial (map (\<lambda>k. X ! nat k) p) (map (\<lambda>k. Y ! nat k) p) B)
                  ((0, 0), s3)"
  have s3: "s3 = s\<lparr>grad_enabled := False,
                    live := insert (Suc (Suc (next_handle s))) (insert (Suc (next_handle s))
                              (insert (next_handle s) (live s))),
                    origin_of := (origin_of s)
                      (next_handle s \<mapsto> FromRandperm, Suc (next_handle s) \<mapsto> FromIndexSelect,
                       Suc (Suc (next_handle s)) \<mapsto> FromIndexSelect),
                    next_handle := Suc (Suc (Suc (next_handle s)))\<rparr>"
    by (simp add: s3_def idx_prologue_def)
  note R = R_def
  let ?n = "next_handle s"
  let ?I = "map (\<lambda>k. X ! nat k) p" and ?L = "map (\<lambda>k. Y ! nat k) p"
  let ?index = "\<lparr>ctensor = ?n, storage = ?n, contents = Int64s p, tdevice = CPU\<rparr>"
  let ?imagesTs = "\<lparr>ctensor = Suc ?n, storage = Suc ?n, contents = Rows ?I, tdevice = tdevice xs\<rparr>"
  let ?labelsTs = "\<lparr>ctensor = Suc (Suc ?n), storage = Suc (Suc ?n), contents = Rows ?L, tdevice = tdevice ys\<rparr>"
  have B: "B = int (nat B)" "0 < nat B" using pos by simp_all
  have nb: "length X div nat B * nat B \<le> length X"
    by (rule div_times_less_eq_dividend)
  have loop0: "idx_loop af m d xs ?imagesTs ?labelsTs (int (length X)) (int (nat B))
               (int (length X div nat B)) (int 0) (int 0) (0, 0) s3
             = (Inr (fst (fold (batch_step (\<lambda>c. real (length X)) af m True)
                        (map (batch_at ?I ?L (nat B)) [0..<length X div nat B]) ((0, 0), s3))),
                snd (fold (batch_step (\<lambda>c. real (length X)) af m True)
                        (map (batch_at ?I ?L (nat B)) [0..<length X div nat B]) ((0, 0), s3)))"
    using nb B(2) by (intro idx_loop_fold) (simp_all add: X lenp)
  have dp: "drop_partial ?I ?L B = map (batch_at ?I ?L (nat B)) [0..<length X div nat B]"
    using pos by (simp add: drop_partial_def lenp)
  have loop: "idx_loop af m d xs ?imagesTs ?labelsTs (int (length X)) B
               (int (length X div nat B)) 0 0 (0, 0) s3 = (Inr (fst R), snd R)"
    using loop0 B(1) by (simp add: R dp)
  have l1: "Suc ?n \<in> live (snd R)"
    unfolding R by (subst fold_batch_old_live) (simp_all add: s3)
  have l2: "Suc (Suc ?n) \<in> live (snd R)"
    unfolding R by (subst fold_batch_old_live) (simp_all add: s3)
  have "BatchAccuracyForLogitsIdx af rp m xs ys d B s =
     (Inr (f64_div (fst (fst R)) (snd (fst R))),
      (snd R)\<lparr>live := live (snd R) - {Suc (next_handle s)} - {Suc (Suc (next_handle s))}\<rparr>)"
    using pos l1 l2
    apply (simp add: BatchAccuracyForLogitsIdx_def NewNoGradGuard_def andThen_def MustSize_0_def X Y
        ret_def panic_def MustRandperm_def alloc_def Let_def MustIndexSelect_def p validX validY
        go_div_nat)
    apply (simp add: s3 [symmetric] loop MustDrop_def andThen_def ret_def)
    done
  then show ?thesis unfolding R_def s3_def .
qed

lemma take_drop_map_nth:
  assumes "k + n \<le> length p"
  shows "take n (drop k (map f p)) = map (\<lambda>j. f (p ! j)) [k..<k + n]"
proof (rule nth_equalityI)
  show "length (take n (drop k (map f p))) = length (map (\<lambda>j. f (p ! j)) [k..<k + n])"
    using assms by simp
next
  fix i assume "i < length (take n (drop k (map f p)))"
  then have i: "i < n" by simp
  then have "k + i < length p" using assms by simp
  then show "take n (drop k (map f p)) ! i = map (\<lambda>j. f (p ! j)) [k..<k + n] ! i"
    using i by simp
qed

lemma rows_forwarded_batch_calls:
  "rows_forwarded (batch_calls m train (map (batch_at I L b) js))
   = map (\<lambda>j. length (take b (drop (j * b) I))) js"
  by (induction js) (simp_all add: batch_calls_def batch_at_def)

lemma batches_forwarded_batch_calls:
  "batches_forwarded (batch_calls m train (map (batch_at I L b) js))
   = map (\<lambda>j. take b (drop (j * b) I)) js"
  by (induction js) (simp_all add: batch_calls_def batch_at_def)

lemma labels_scored_batch_calls:
  "labels_scored (batch_calls m train (map (batch_at I L b) js))
   = map (\<lambda>j. take b (drop (j * b) L)) js"
  by (induction js) (simp_all add: batch_calls_def batch_at_def)

lemma concat_consecutive_batches:
  "concat (map (\<lambda>j. take b (drop (j * b) I)) [0..<n]) = take (n * b) I"
proof (induction n)
  case 0
  show ?case by simp
next
  case (Suc n)
  have "take (n * b + b) I = take (n * b) I @ take b (drop (n * b) I)"
    by (rule take_add)
  with Suc show ?case by (simp add: add.commute)
qed

lemma BatchAccuracyForLogits_calls:
  assumes X: "contents xs = Rows X" and Y: "contents ys = Rows Y" and len: "length Y = length X"
  shows "calls (snd (BatchAccuracyForLogits af m xs ys d B s))
         = calls s @ batch_calls m False (drop_partial X Y B)"
  by (simp add: BatchAccuracyForLogits_run [OF X Y len] fold_batch_calls)

lemma BatchAccuracyForLogitsIdx_calls:
  assumes X: "contents xs = Rows X" and Y: "contents ys = Rows Y"
    and p: "rp (int (length X)) = p" and lenp: "length p = length X"
    and validX: "list_all (\<lambda>k. 0 \<le> k \<and> k < int (length X)) p"
    and validY: "list_all (\<lambda>k. 0 \<le> k \<and> k < int (length Y)) p"
    and pos: "0 < B"
  shows "calls (snd (BatchAccuracyForLogitsIdx af rp m xs ys d B s))
         = calls s @ batch_calls m True
             (map (batch_at (map (\<lambda>k. X ! nat k) p) (map (\<lambda>k. Y ! nat k) p) (nat B))
                [0..<length X div nat B])"
proof -
  have dp: "drop_partial (map (\<lambda>k. X ! nat k) p) (map (\<lambda>k. Y ! nat k) p) B
            = map (batch_at (map (\<lambda>k. X ! nat k) p) (map (\<lambda>k. Y ! nat k) p) (nat B))
                [0..<length X div nat B]"
    using pos by (simp add: drop_partial_def lenp)
  show ?thesis
    by (simp add: BatchAccuracyForLogitsIdx_run [where rp = rp, OF X Y p lenp validX validY pos]
        fold_batch_calls dp idx_prologue_def)
qed

lemma shuffled_batch_at:
  assumes "i < length p div b"
  shows "batch_at (map (\<lambda>k. X ! nat k) p) (map (\<lambda>k. Y ! nat k) p) b i
         = (Rows (map (\<lambda>j. X ! nat (p ! j)) [i * b..<i * b + b]),
            Rows (map (\<lambda>j. Y ! nat (p ! j)) [i * b..<i * b + b]))"
proof -
  from within_last_batch [OF assms] have "i * b + b \<le> length p" by simp
  then show ?thesis
    by (simp add: batch_at_def take_drop_map_nth)
qed

section \<open>Properties of the accuracy evaluators\<close>

subsection \<open>Claim C10: evaluation mode\<close>

text \<open>
  Claim C10: for every module, on data and labels of rank one or more with the same
  number of rows, \<^verbatim>\<open>BatchAccuracyForLogits\<close> calls \<^verbatim>\<open>ForwardT\<close> once for every
  batch of the iterator, in order, each time with the training flag \<open>false\<close>
  (followed by the accuracy primitive on the logits and the labels of the batch), and
  makes no other module call.
\<close>

theorem BatchAccuracyForLogits_forwards_in_eval_mode:
  assumes "contents xs = Rows X" and "contents ys = Rows Y" and "length Y = length X"
  shows "calls (snd (BatchAccuracyForLogits af m xs ys d B s)) =
           calls s @ concat (map (\<lambda>b. [ForwardTCall (fst b) False,
                                          AccuracyCall (m (fst b) False) (snd b)])
                              (drop_partial X Y B))"
  using BatchAccuracyForLogits_calls [OF assms] by (simp add: batch_calls_def)

text \<open>Witness for C10: three rows, batch size 1, the identity as module.\<close>

theorem BatchAccuracyForLogits_forwards_in_eval_mode_witness:
  "calls (snd (BatchAccuracyForLogits (\<lambda>lg lab. 1) (\<lambda>c train. c)
       \<lparr>ctensor = 0, storage = 0, contents = Rows [[1], [2], [3]], tdevice = CPU\<rparr>
       \<lparr>ctensor = 1, storage = 1, contents = Rows [[0], [1], [0]], tdevice = CPU\<rparr>
       CPU 1
       \<lparr>live = {0, 1}, origin_of = Map.empty, next_handle = 2, grad_enabled = True, calls = []\<rparr>))
   = [ForwardTCall (Rows [[1]]) False, AccuracyCall (Rows [[1]]) (Rows [[0]]),
      ForwardTCall (Rows [[2]]) False, AccuracyCall (Rows [[2]]) (Rows [[1]]),
      ForwardTCall (Rows [[3]]) False, AccuracyCall (Rows [[3]]) (Rows [[0]])]"
  using BatchAccuracyForLogits_forwards_in_eval_mode [of "\<lparr>ctensor = 0, storage = 0, contents = Rows [[1], [2], [3]], tdevice = CPU\<rparr>"
      "[[1], [2], [3]]"
      "\<lparr>ctensor = 1, storage = 1, contents = Rows [[0], [1], [0]], tdevice = CPU\<rparr>"
      "[[0], [1], [0]]" "\<lambda>lg lab. 1" "\<lambda>c train. c" CPU 1
      "\<lparr>live = {0, 1}, origin_of = Map.empty, next_handle = 2, grad_enabled = True, calls = []\<rparr>"]
  by (simp add: drop_partial_def batch_at_def upt_rec)


subsection \<open>Claim C8: the shuffled batches keep data and labels paired\<close>

text \<open>
  Claim C8: the index-based evaluator draws one index tensor \<open>p\<close> for the \<open>N\<close> rows
  of the data (\<open>N\<close> entries, each a valid row number of data and labels, as every
  permutation of \<open>[0, N)\<close> is) and uses it for both tensors. For a positive batch
  size \<open>B\<close> the \<open>i\<close>-th batch then consists of the data rows
  \<open>X[p[i*B]], ..., X[p[i*B+B-1]]\<close> and of the label rows
  \<open>Y[p[i*B]], ..., Y[p[i*B+B-1]]\<close>: row \<open>k\<close> of the labels of a batch belongs to
  the same original sample \<open>p[i*B+k]\<close> as row \<open>k\<close> of its data. The batches are read
  off the calls into the module (data) and into the accuracy primitive (labels).
\<close>

theorem shuffled_batches_pair_data_and_label_rows:
  assumes "contents xs = Rows X" and "contents ys = Rows Y"
    and "rp (int (length X)) = p" and "length p = length X"
    and "list_all (\<lambda>k. 0 \<le> k \<and> k < int (length X)) p"
    and "list_all (\<lambda>k. 0 \<le> k \<and> k < int (length Y)) p"
    and "0 < B"
  shows "calls (snd (BatchAccuracyForLogitsIdx af rp m xs ys d B s)) =
           calls s @ concat (map
             (\<lambda>i. [ForwardTCall (Rows (map (\<lambda>j. X ! nat (p ! j)) [i * nat B..<i * nat B + nat B])) True,
                   AccuracyCall
                     (m (Rows (map (\<lambda>j. X ! nat (p ! j)) [i * nat B..<i * nat B + nat B])) True)
                     (Rows (map (\<lambda>j. Y ! nat (p ! j)) [i * nat B..<i * nat B + nat B]))])
             [0..<length X div nat B])"
proof -
  have eq: "map (\<lambda>b. [ForwardTCall (fst b) True, AccuracyCall (m (fst b) True) (snd b)])
          (map (batch_at (map (\<lambda>k. X ! nat k) p) (map (\<lambda>k. Y ! nat k) p) (nat B))
             [0..<length X div nat B])
        = map (\<lambda>i. [ForwardTCall (Rows (map (\<lambda>j. X ! nat (p ! j)) [i * nat B..<i * nat B + nat B])) True,
                   AccuracyCall
                     (m (Rows (map (\<lambda>j. X ! nat (p ! j)) [i * nat B..<i * nat B + nat B])) True)
                     (Rows (map (\<lambda>j. Y ! nat (p ! j)) [i * nat B..<i * nat B + nat B]))])
             [0..<length X div nat B]"
    unfolding map_map
  proof (rule map_cong [OF refl])
    fix i assume "i \<in> set [0..<length X div nat B]"
    then have "i < length p div nat B" using assms(4) by simp
    from shuffled_batch_at [OF this, of X Y]
    show "((\<lambda>b. [ForwardTCall (fst b) True, AccuracyCall (m (fst b) True) (snd b)]) \<circ>
            batch_at (map (\<lambda>k. X ! nat k) p) (map (\<lambda>k. Y ! nat k) p) (nat B)) i
          = [ForwardTCall (Rows (map (\<lambda>j. X ! nat (p ! j)) [i * nat B..<i * nat B + nat B])) True,
             AccuracyCall
               (m (Rows (map (\<lambda>j. X ! nat (p ! j)) [i * nat B..<i * nat B + nat B])) True)
               (Rows (map (\<lambda>j. Y ! nat (p ! j)) [i * nat B..<i * nat B + nat B]))]"
      by simp
  qed
  show ?thesis
    unfolding BatchAccuracyForLogitsIdx_calls [where rp = rp, OF assms] batch_calls_def eq
    by (rule refl)
qed

text \<open>Witness for C8: three samples shuffled by \<open>p = [2, 0, 1]\<close>, batch size 1; the
  data row \<open>12\<close> meets the label row \<open>22\<close>, \<open>10\<close> meets \<open>20\<close>, \<open>11\<close> meets \<open>21\<close>.\<close>

theorem shuffled_batches_pair_data_and_label_rows_witness:
  "calls (snd (BatchAccuracyForLogitsIdx (\<lambda>lg lab. 1) (\<lambda>n. [2, 0, 1]) (\<lambda>c train. c)
       \<lparr>ctensor = 0, storage = 0, contents = Rows [[10], [11], [12]], tdevice = CPU\<rparr>
       \<lparr>ctensor = 1, storage = 1, contents = Rows [[20], [21], [22]], tdevice = CPU\<rparr>
       CPU 1
       \<lparr>live = {0, 1}, origin_of = Map.empty, next_handle = 2, grad_enabled = True, calls = []\<rparr>))
   = [ForwardTCall (Rows [[12]]) True, AccuracyCall (Rows [[12]]) (Rows [[22]]),
      ForwardTCall (Rows [[10]]) True, AccuracyCall (Rows [[10]]) (Rows [[20]]),
      ForwardTCall (Rows [[11]]) True, AccuracyCall (Rows [[11]]) (Rows [[21]])]"
  using shuffled_batches_pair_data_and_label_rows [of "\<lparr>ctensor = 0, storage = 0, contents = Rows [[10], [11], [12]], tdevice = CPU\<rparr>"
      "[[10], [11], [12]]"
      "\<lparr>ctensor = 1, storage = 1, contents = Rows [[20], [21], [22]], tdevice = CPU\<rparr>"
      "[[20], [21], [22]]" "\<lambda>n. [2, 0, 1]" "[2, 0, 1]" 1 "\<lambda>lg lab. 1" "\<lambda>c train. c" CPU
      "\<lparr>live = {0, 1}, origin_of = Map.empty, next_handle = 2, grad_enabled = True, calls = []\<rparr>"]
  by (simp add: upt_rec)

subsection \<open>Claim C9: full batches only\<close>

text \<open>
  Claim C9: the loop of the index-based evaluator (the drop-partial policy) forwards,
  for \<open>N\<close> rows and a positive batch size \<open>B\<close>, exactly \<open>floor (N / B)\<close> batches of
  \<open>B\<close> rows each, and the remaining \<open>N mod B\<close> rows are not used. With \<open>I\<close> the
  shuffled data rows and \<open>L\<close> the shuffled label rows (row \<open>j\<close> of either is row
  \<open>p ! j\<close> of the input), batch \<open>i\<close> of the \<open>floor (N / B)\<close> batches holds the
  rows \<open>i * B, \<dots>, i * B + B - 1\<close> of \<open>I\<close> and is scored against the same rows
  of \<open>L\<close>; every batch has \<open>B\<close> rows; and the batches, one after the other, are
  the first \<open>N - N mod B\<close> rows of \<open>I\<close> (of \<open>L\<close>), each once and in order, so
  that the last \<open>N mod B\<close> shuffled rows are in no batch.
\<close>

theorem idx_batches_are_full_and_floor_many:
  assumes "contents xs = Rows X" and "contents ys = Rows Y"
    and "rp (int (length X)) = p" and "length p = length X"
    and "list_all (\<lambda>k. 0 \<le> k \<and> k < int (length X)) p"
    and "list_all (\<lambda>k. 0 \<le> k \<and> k < int (length Y)) p"
    and "0 < B"
  shows "batches_forwarded (drop (length (calls s))
             (calls (snd (BatchAccuracyForLogitsIdx af rp m xs ys d B s))))
           = map (\<lambda>i. take (nat B) (drop (i * nat B) (map (\<lambda>k. X ! nat k) p)))
               [0..<length X div nat B]
       \<and> labels_scored (drop (length (calls s))
             (calls (snd (BatchAccuracyForLogitsIdx af rp m xs ys d B s))))
           = map (\<lambda>i. take (nat B) (drop (i * nat B) (map (\<lambda>k. Y ! nat k) p)))
               [0..<length X div nat B]
       \<and> rows_forwarded (drop (length (calls s))
             (calls (snd (BatchAccuracyForLogitsIdx af rp m xs ys d B s))))
           = replicate (length X div nat B) (nat B)
       \<and> sum_list (rows_forwarded (drop (length (calls s))
             (calls (snd (BatchAccuracyForLogitsIdx af rp m xs ys d B s)))))
           = length X - length X mod nat B
       \<and> concat (batches_forwarded (drop (length (calls s))
             (calls (snd (BatchAccuracyForLogitsIdx af rp m xs ys d B s)))))
           = take (length X - length X mod nat B) (map (\<lambda>k. X ! nat k) p)
       \<and> concat (labels_scored (drop (length (calls s))
             (calls (snd (BatchAccuracyForLogitsIdx af rp m xs ys d B s)))))
           = take (length X - length X mod nat B) (map (\<lambda>k. Y ! nat k) p)"
proof -
  let ?I = "map (\<lambda>k. X ! nat k) p"
  let ?L = "map (\<lambda>k. Y ! nat k) p"
  let ?new = "drop (length (calls s))
                (calls (snd (BatchAccuracyForLogitsIdx af rp m xs ys d B s)))"
  have new: "?new = batch_calls m True (map (batch_at ?I ?L (nat B)) [0..<length X div nat B])"
    unfolding BatchAccuracyForLogitsIdx_calls [where rp = rp, OF assms] by simp
  have each: "map (\<lambda>j. length (take (nat B) (drop (j * nat B) ?I))) [0..<length X div nat B]
              = map (\<lambda>j. nat B) [0..<length X div nat B]"
  proof (rule map_cong [OF refl])
    fix j assume "j \<in> set [0..<length X div nat B]"
    then have "j < length X div nat B" by simp
    from within_last_batch [OF this] have "j * nat B + nat B \<le> length X" by simp
    then show "length (take (nat B) (drop (j * nat B) ?I)) = nat B"
      using assms(4) by simp
  qed
  have full: "length X div nat B * nat B = length X - length X mod nat B"
    by (simp add: minus_mod_eq_div_mult)
  have data: "batches_forwarded ?new
              = map (\<lambda>i. take (nat B) (drop (i * nat B) ?I)) [0..<length X div nat B]"
    unfolding new by (rule batches_forwarded_batch_calls)
  have labels: "labels_scored ?new
              = map (\<lambda>i. take (nat B) (drop (i * nat B) ?L)) [0..<length X div nat B]"
    unfolding new by (rule labels_scored_batch_calls)
  have rows: "rows_forwarded ?new = replicate (length X div nat B) (nat B)"
    unfolding new by (simp only: rows_forwarded_batch_calls each map_replicate_const length_upt)
      simp
  have total: "sum_list (rows_forwarded ?new) = length X - length X mod nat B"
    unfolding rows using full by (simp add: sum_list_replicate)
  have cdata: "concat (batches_forwarded ?new) = take (length X - length X mod nat B) ?I"
    unfolding data concat_consecutive_batches full ..
  have clabels: "concat (labels_scored ?new) = take (length X - length X mod nat B) ?L"
    unfolding labels concat_consecutive_batches full ..
  from data labels rows total cdata clabels show ?thesis by (intro conjI)
qed

text \<open>Witness for C9: ten rows \<open>[0], \<dots>, [9]\<close>, the permutation
  \<open>[3, 1, 4, 0, 9, 2, 6, 5, 8, 7]\<close> and batch size 3. The three batches are the
  rows 3, 1, 4, then 0, 9, 2, then 6, 5, 8; the last shuffled row, 7, is in no
  batch. With nine rows and the permutation \<open>[3, 1, 4, 0, 8, 2, 6, 5, 7]\<close> the
  three batches are the rows 3, 1, 4, then 0, 8, 2, then 6, 5, 7, and no row is left
  out.\<close>

theorem idx_batches_are_full_and_floor_many_witness:
  "batches_forwarded (calls (snd (BatchAccuracyForLogitsIdx (\<lambda>lg lab. 1)
       (\<lambda>n. [3, 1, 4, 0, 9, 2, 6, 5, 8, 7]) (\<lambda>c train. c)
       \<lparr>ctensor = 0, storage = 0,
         contents = Rows [[0], [1], [2], [3], [4], [5], [6], [7], [8], [9]], tdevice = CPU\<rparr>
       \<lparr>ctensor = 1, storage = 1,
         contents = Rows [[0], [1], [0], [1], [0], [1], [0], [1], [0], [1]], tdevice = CPU\<rparr>
       CPU 3
       \<lparr>live = {0, 1}, origin_of = Map.empty, next_handle = 2, grad_enabled = True, calls = []\<rparr>)))
     = [[[3], [1], [4]], [[0], [9], [2]], [[6], [5], [8]]]
   \<and> labels_scored (calls (snd (BatchAccuracyForLogitsIdx (\<lambda>lg lab. 1)
       (\<lambda>n. [3, 1, 4, 0, 9, 2, 6, 5, 8, 7]) (\<lambda>c train. c)
       \<lparr>ctensor = 0, storage = 0,
         contents = Rows [[0], [1], [2], [3], [4], [5], [6], [7], [8], [9]], tdevice = CPU\<rparr>
       \<lparr>ctensor = 1, storage = 1,
         contents = Rows [[0], [1], [0], [1], [0], [1], [0], [1], [0], [1]], tdevice = CPU\<rparr>
       CPU 3
       \<lparr>live = {0, 1}, origin_of = Map.empty, next_handle = 2, grad_enabled = True, calls = []\<rparr>)))
     = [[[1], [1], [0]], [[0], [1], [0]], [[0], [1], [0]]]
   \<and> rows_forwarded (calls (snd (BatchAccuracyForLogitsIdx (\<lambda>lg lab. 1)
       (\<lambda>n. [3, 1, 4, 0, 9, 2, 6, 5, 8, 7]) (\<lambda>c train. c)
       \<lparr>ctensor = 0, storage = 0,
         contents = Rows [[0], [1], [2], [3], [4], [5], [6], [7], [8], [9]], tdevice = CPU\<rparr>
       \<lparr>ctensor = 1, storage = 1,
         contents = Rows [[0], [1], [0], [1], [0], [1], [0], [1], [0], [1]], tdevice = CPU\<rparr>
       CPU 3
       \<lparr>live = {0, 1}, origin_of = Map.empty, next_handle = 2, grad_enabled = True, calls = []\<rparr>)))
     = [3, 3, 3]
   \<and> batches_forwarded (calls (snd (BatchAccuracyForLogitsIdx (\<lambda>lg lab. 1)
       (\<lambda>n. [3, 1, 4, 0, 8, 2, 6, 5, 7]) (\<lambda>c train. c)
       \<lparr>ctensor = 0, storage = 0,
         contents = Rows [[0], [1], [2], [3], [4], [5], [6], [7], [8]], tdevice = CPU\<rparr>
       \<lparr>ctensor = 1, storage = 1,
         contents = Rows [[0], [1], [0], [1], [0], [1], [0], [1], [0]], tdevice = CPU\<rparr>
       CPU 3
       \<lparr>live = {0, 1}, origin_of = Map.empty, next_handle = 2, grad_enabled = True, calls = []\<rparr>)))
     = [[[3], [1], [4]], [[0], [8], [2]], [[6], [5], [7]]]
   \<and> rows_forwarded (calls (snd (BatchAccuracyForLogitsIdx (\<lambda>lg lab. 1)
       (\<lambda>n. [3, 1, 4, 0, 8, 2, 6, 5, 7]) (\<lambda>c train. c)
       \<lparr>ctensor = 0, storage = 0,
         contents = Rows [[0], [1], [2], [3], [4], [5], [6], [7], [8]], tdevice = CPU\<rparr>
       \<lparr>ctensor = 1, storage = 1,
         contents = Rows [[0], [1], [0], [1], [0], [1], [0], [1], [0]], tdevice = CPU\<rparr>
       CPU 3
       \<lparr>live = {0, 1}, origin_of = Map.empty, next_handle = 2, grad_enabled = True, calls = []\<rparr>)))
     = [3, 3, 3]"
proof -
  note nine = idx_batches_are_full_and_floor_many [where
      xs = "\<lparr>ctensor = 0, storage = 0,
         contents = Rows [[0], [1], [2], [3], [4], [5], [6], [7], [8]], tdevice = CPU\<rparr>"
      and X = "[[0], [1], [2], [3], [4], [5], [6], [7], [8]]"
      and ys = "\<lparr>ctensor = 1, storage = 1,
         contents = Rows [[0], [1], [0], [1], [0], [1], [0], [1], [0]], tdevice = CPU\<rparr>"
      and Y = "[[0], [1], [0], [1], [0], [1], [0], [1], [0]]"
      and rp = "\<lambda>n. [3, 1, 4, 0, 8, 2, 6, 5, 7]" and p = "[3, 1, 4, 0, 8, 2, 6, 5, 7]"
      and B = 3
      and s = "\<lparr>live = {0, 1}, origin_of = Map.empty, next_handle = 2, grad_enabled = True,
         calls = []\<rparr>"
      and af = "\<lambda>lg lab. 1" and m = "\<lambda>c train. c" and d = CPU]
  note run = idx_batches_are_full_and_floor_many [where
      xs = "\<lparr>ctensor = 0, storage = 0,
         contents = Rows [[0], [1], [2], [3], [4], [5], [6], [7], [8], [9]], tdevice = CPU\<rparr>"
      and X = "[[0], [1], [2], [3], [4], [5], [6], [7], [8], [9]]"
      and ys = "\<lparr>ctensor = 1, storage = 1,
         contents = Rows [[0], [1], [0], [1], [0], [1], [0], [1], [0], [1]], tdevice = CPU\<rparr>"
      and Y = "[[0], [1], [0], [1], [0], [1], [0], [1], [0], [1]]"
      and rp = "\<lambda>n. [3, 1, 4, 0, 9, 2, 6, 5, 8, 7]" and p = "[3, 1, 4, 0, 9, 2, 6, 5, 8, 7]"
      and B = 3
      and s = "\<lparr>live = {0, 1}, origin_of = Map.empty, next_handle = 2, grad_enabled = True,
         calls = []\<rparr>"
      and af = "\<lambda>lg lab. 1" and m = "\<lambda>c train. c" and d = CPU]
  have three: "[0..<3] = [0, 1, 2]" by (simp add: upt_rec)
  have thrice: "replicate 3 (3::nat) = [3, 3, 3]" by (simp add: numeral_3_eq_3)
  from run nine show ?thesis
    by (simp add: three thrice)
qed

subsection \<open>Helper lemmas: the gradient-tracking mode, empty batch lists, releases\<close>

lemma grad_andThen:
  assumes "\<And>s. grad_enabled (snd (m s)) = grad_enabled s"
    and "\<And>x s. grad_enabled (snd (f x s)) = grad_enabled s"
  shows "grad_enabled (snd (andThen m f s)) = grad_enabled s"
proof (cases "m s")
  case (Pair r s')
  from assms(1) [of s] Pair have s': "grad_enabled s' = grad_enabled s" by simp
  show ?thesis
  proof (cases r)
    case (Inl e)
    then show ?thesis using Pair s' by (simp add: andThen_def)
  next
    case (Inr x)
    then have "andThen m f s = f x s'" using Pair by (simp add: andThen_def)
    then show ?thesis using assms(2) [of x s'] s' by simp
  qed
qed

lemma grad_prims:
  "grad_enabled (snd (ret x s)) = grad_enabled s"
  "grad_enabled (snd (panic e s)) = grad_enabled s"
  "grad_enabled (snd (alloc og st c dv s)) = grad_enabled s"
  "grad_enabled (snd (MustDrop t s)) = grad_enabled s"
  "grad_enabled (snd (MustSize_0 t s)) = grad_enabled s"
  "grad_enabled (snd (Values_0 t s)) = grad_enabled s"
  "grad_enabled (snd (MustRandperm p dv s)) = grad_enabled s"
  "grad_enabled (snd (ForwardT m t train s)) = grad_enabled s"
  "grad_enabled (snd (AccuracyForLogits af t t' s)) = grad_enabled s"
  by (simp_all add: ret_def panic_def alloc_def Let_def MustDrop_def MustSize_0_def Values_0_def
      MustRandperm_def ForwardT_def AccuracyForLogits_def split: option.splits list.splits)

lemma grad_MustTo: "grad_enabled (snd (MustTo d del t s)) = grad_enabled s"
  unfolding MustTo_def by (intro grad_andThen) (simp_all add: grad_prims grad_andThen)

lemma grad_MustNarrow: "grad_enabled (snd (MustNarrow a n t s)) = grad_enabled s"
  by (simp add: MustNarrow_def grad_prims split: option.splits)

lemma grad_Idx: "grad_enabled (snd (Idx ix t s)) = grad_enabled s"
  by (simp add: Idx_def grad_MustNarrow)

lemma grad_MustIndexSelect: "grad_enabled (snd (MustIndexSelect t ix del s)) = grad_enabled s"
  by (simp add: MustIndexSelect_def grad_prims grad_andThen split: tdata.splits option.splits)

lemma grad_idx_body:
  "grad_enabled (snd (idx_body af m d xs imagesTs labelsTs start sz tot s)) = grad_enabled s"
  unfolding idx_body_def Let_def
  by (intro grad_andThen grad_prims grad_MustTo grad_Idx)

lemma grad_idx_loop:
  "grad_enabled (snd (idx_loop af m d xs imagesTs labelsTs samples batchSize batches i batchIndex
                        tot s)) = grad_enabled s"
proof (induction "nat (batches - i)" arbitrary: i batchIndex tot s)
  case 0
  then have "batches \<le> i" by simp
  then show ?case by (simp add: idx_loop_done)
next
  case (Suc k)
  then have lt: "i < batches" by simp
  have k: "k = nat (batches - (i + 1))" using Suc.hyps(2) by simp
  obtain r s' where body:
    "idx_body af m d xs imagesTs labelsTs (batchIndex * batchSize) batchSize tot s = (r, s')"
    by (cases "idx_body af m d xs imagesTs labelsTs (batchIndex * batchSize) batchSize tot s")
  from grad_idx_body [of af m d xs imagesTs labelsTs "batchIndex * batchSize" batchSize tot s] body
  have s': "grad_enabled s' = grad_enabled s" by simp
  show ?case
  proof (cases r)
    case (Inl e)
    then show ?thesis
      using lt body s' by (subst idx_loop.simps) (simp add: Let_def)
  next
    case (Inr tot')
    then show ?thesis
      using lt body s' Suc.hyps(1) [OF k, of "batchIndex + 1" tot' s']
      by (subst idx_loop.simps) (simp add: Let_def)
  qed
qed

lemma drop_partial_empty:
  assumes "B \<le> 0 \<or> int (length X) < B"
  shows "drop_partial X Y B = []"
proof (cases "B \<le> 0")
  case True
  then show ?thesis by (simp add: drop_partial_def)
next
  case False
  with assms have "length X < nat B" by linarith
  then show ?thesis using False by (simp add: drop_partial_def)
qed

lemma go_div_negative: "B < 0 \<Longrightarrow> go_div (int N) B \<le> 0"
proof -
  assume "B < 0"
  then have "go_div (int N) B = - (sgn (int N) * (\<bar>int N\<bar> div \<bar>B\<bar>))"
    by (simp add: go_div_def)
  moreover have "0 \<le> sgn (int N) * (\<bar>int N\<bar> div \<bar>B\<bar>)"
  proof (intro mult_nonneg_nonneg)
    show "0 \<le> sgn (int N)" by (simp add: sgn_if)
    show "0 \<le> \<bar>int N\<bar> div \<bar>B\<bar>"
      using \<open>B < 0\<close> by (simp add: div_int_pos_iff)
  qed
  ultimately show ?thesis by simp
qed

lemma BatchAccuracyForLogitsIdx_negative:
  assumes X: "contents xs = Rows X" and Y: "contents ys = Rows Y"
    and p: "rp (int (length X)) = p"
    and validX: "list_all (\<lambda>k. 0 \<le> k \<and> k < int (length X)) p"
    and validY: "list_all (\<lambda>k. 0 \<le> k \<and> k < int (length Y)) p"
    and neg: "B < 0"
  shows "fst (BatchAccuracyForLogitsIdx af rp m xs ys d B s) = Inr NaN"
proof -
  have stops: "\<And>imagesTs labelsTs s'.
       idx_loop af m d xs imagesTs labelsTs (int (length X)) B (go_div (int (length X)) B)
         0 0 (0, 0) s' = (Inr (0, 0), s')"
    by (intro idx_loop_done go_div_negative neg)
  show ?thesis
    using neg
    apply (simp add: BatchAccuracyForLogitsIdx_def NewNoGradGuard_def andThen_def MustSize_0_def X Y
        ret_def panic_def MustRandperm_def alloc_def Let_def MustIndexSelect_def p validX validY
        stops MustDrop_def f64_div_def)
    done
qed

lemma released_except_grad:
  "released_except K s (s'\<lparr>grad_enabled := g\<rparr>) = released_except K s s'"
  "released_except K (s\<lparr>grad_enabled := g\<rparr>) s' = released_except K s s'"
  by (simp_all add: released_except_def)

lemma BatchAccuracyForLogits_released:
  assumes X: "contents xs = Rows X" and Y: "contents ys = Rows Y" and len: "length Y = length X"
  shows "released_except {FromForward} s (snd (BatchAccuracyForLogits af m xs ys d B s))"
proof -
  have "released_except {FromForward} (s\<lparr>grad_enabled := False\<rparr>)
          (snd (fold (batch_step leading af m False) (drop_partial X Y B)
                  ((0, 0), s\<lparr>grad_enabled := False\<rparr>)))"
    by (rule fold_batch_released) simp_all
  then show ?thesis
    by (simp add: BatchAccuracyForLogits_run [OF X Y len] released_except_grad)
qed

lemma BatchAccuracyForLogitsIdx_released:
  assumes X: "contents xs = Rows X" and Y: "contents ys = Rows Y"
    and p: "rp (int (length X)) = p" and lenp: "length p = length X"
    and validX: "list_all (\<lambda>k. 0 \<le> k \<and> k < int (length X)) p"
    and validY: "list_all (\<lambda>k. 0 \<le> k \<and> k < int (length Y)) p"
    and pos: "0 < B"
  shows "released_except {FromForward, FromRandperm} s
           (snd (BatchAccuracyForLogitsIdx af rp m xs ys d B s))"
proof -
  define K where "K = {FromForward, FromRandperm}"
  define s3 where "s3 = idx_prologue s"
  define s4 where "s4 = snd (fold (batch_step (\<lambda>c. real (length X)) af m True)
                  (drop_partial (map (\<lambda>k. X ! nat k) p) (map (\<lambda>k. Y ! nat k) p) B)
                  ((0, 0), s3))"
  let ?n = "next_handle s"
  have fin: "snd (BatchAccuracyForLogitsIdx af rp m xs ys d B s)
             = s4\<lparr>live := live s4 - {Suc ?n} - {Suc (Suc ?n)}\<rparr>"
    by (simp add: BatchAccuracyForLogitsIdx_run [where rp = rp, OF X Y p lenp validX validY pos]
        s4_def s3_def)
  have loop: "released_except K s3 s4"
    unfolding s4_def K_def by (rule fold_batch_released) simp_all
  have n3: "next_handle s3 = ?n + 3" by (simp add: s3_def idx_prologue_def)
  have n34: "next_handle s3 \<le> next_handle s4"
    using loop by (simp add: released_except_def)
  have old: "(h \<in> live s4 \<longleftrightarrow> h \<in> live s3) \<and> origin_of s4 h = origin_of s3 h"
    if "h < ?n + 3" for h
    using loop that n3 by (simp add: released_except_def)
  have new: "h \<in> live s4 \<longleftrightarrow> (\<exists>k \<in> K. origin_of s4 h = Some k)"
    if "?n + 3 \<le> h" "h < next_handle s4" for h
    using loop that n3 by (simp add: released_except_def)
  have a: "?n \<le> next_handle s4" using n3 n34 by simp
  have b: "(h \<in> live s4 - {Suc ?n} - {Suc (Suc ?n)} \<longleftrightarrow> h \<in> live s)
           \<and> origin_of s4 h = origin_of s h" if "h < ?n" for h
  proof -
    from that have "h < ?n + 3" by simp
    from old [OF this] that show ?thesis by (auto simp: s3_def idx_prologue_def)
  qed
  have c: "h \<in> live s4 - {Suc ?n} - {Suc (Suc ?n)} \<longleftrightarrow> (\<exists>k \<in> K. origin_of s4 h = Some k)"
    if "?n \<le> h" "h < next_handle s4" for h
  proof (cases "h < ?n + 3")
    case True
    with that(1) have "h = ?n \<or> h = Suc ?n \<or> h = Suc (Suc ?n)" by auto
    with old [OF True] show ?thesis by (auto simp: s3_def idx_prologue_def K_def)
  next
    case False
    then have ge: "?n + 3 \<le> h" by simp
    from new [OF ge that(2)] ge show ?thesis by auto
  qed
  have "released_except K s (s4\<lparr>live := live s4 - {Suc ?n} - {Suc (Suc ?n)}\<rparr>)"
    unfolding released_except_def using a b c by simp
  then show ?thesis unfolding fin K_def .
qed

lemma batch_effect_raw:
  "s\<lparr>calls := calls s @ [ForwardTCall bI train, AccuracyCall lg bL],
       origin_of := (origin_of s)
         (next_handle s \<mapsto> FromNarrow, Suc (next_handle s) \<mapsto> FromNarrow,
          Suc (Suc (next_handle s)) \<mapsto> FromTo, Suc (Suc (Suc (next_handle s))) \<mapsto> FromTo,
          Suc (Suc (Suc (Suc (next_handle s)))) \<mapsto> FromForward,
          Suc (Suc (Suc (Suc (Suc (next_handle s))))) \<mapsto> FromAccuracy),
       next_handle := Suc (Suc (Suc (Suc (Suc (Suc (next_handle s)))))),
       live := insert (Suc (Suc (Suc (Suc (Suc (next_handle s))))))
               (insert (Suc (Suc (Suc (Suc (next_handle s)))))
                 (insert (Suc (Suc (Suc (next_handle s))))
                   (insert (Suc (Suc (next_handle s)))
                     (insert (Suc (next_handle s)) (insert (next_handle s) (live s)))
                    - {next_handle s}) - {Suc (next_handle s)}))
              - {Suc (Suc (next_handle s))} - {Suc (Suc (Suc (next_handle s)))}
              - {Suc (Suc (Suc (Suc (Suc (next_handle s)))))}\<rparr>
     = batch_effect bI train lg bL s"
  unfolding batch_effect_def Let_def
  by (intro world.equality) (auto simp: eval_nat_numeral)

lemma idx_body_effect:
  assumes "idx_body af m d xs imagesTs labelsTs start sz tot s = (Inr tot', s')"
  shows "\<exists>bI lg bL. s' = batch_effect bI True lg bL s"
  using assms
  by (auto simp: idx_body_def Idx_def NewNarrow_def MustNarrow_def alloc_def Let_def
      andThen_def MustTo_def MustDrop_def ret_def panic_def ForwardT_def AccuracyForLogits_def
      Values_0_def MustSize_0_def batch_effect_raw
      split: option.splits if_splits)

lemma logits_pass_effect:
  assumes "Next it s = (Inr (Some item, it'), s1)"
    and "logits_body af m d item tot s1 = (Inr tot', s2)"
  shows "\<exists>bI lg bL. s2 = batch_effect bI False lg bL s"
  using assms
  apply (auto simp: Next_def logits_body_def MustNarrow_def alloc_def Let_def
      andThen_def MustTo_def MustDrop_def ret_def panic_def ForwardT_def AccuracyForLogits_def
      Values_0_def MustSize_0_def batch_effect_raw
      split: option.splits if_splits)
  apply (intro exI)
  apply (rule refl)
  done

lemma pass_released:
  assumes "\<exists>bI lg bL. s' = batch_effect bI train lg bL s"
  shows "released_except {FromForward} s s'"
  using assms batch_effect_released [of "{FromForward}"] by auto

subsection \<open>Claim C1: the weights of the running sums\<close>

text \<open>
  Claim C1 says that both evaluators add, for every batch, the accuracy weighted by
  the batch's own number of rows to \<open>sumAccuracy\<close> and that number to
  \<open>sampleCount\<close>. The loop body of \<^verbatim>\<open>BatchAccuracyForLogitsIdx\<close> takes the
  weight from \<^verbatim>\<open>xs.MustSize()[0]\<close>, the number of rows of the whole data tensor:
  for a batch of 2 rows cut from 4 rows, with accuracy \<open>1/2\<close>, it adds \<open>1/2 * 4\<close>
  and \<open>4\<close>. The body of \<^verbatim>\<open>BatchAccuracyForLogits\<close> adds \<open>1/2 * 2\<close> and \<open>2\<close> for
  a batch of 2 rows, as the claim says.
\<close>

theorem idx_body_weights_batch_by_total_rows:
  "fst (idx_body (\<lambda>lg lab. 1 / 2) (\<lambda>c train. c) CPU
         \<lparr>ctensor = 0, storage = 0, contents = Rows [[1], [2], [3], [4]], tdevice = CPU\<rparr>
         \<lparr>ctensor = 3, storage = 3, contents = Rows [[3], [1], [4], [2]], tdevice = CPU\<rparr>
         \<lparr>ctensor = 4, storage = 4, contents = Rows [[0], [1], [0], [1]], tdevice = CPU\<rparr>
         0 2 (0, 0)
         \<lparr>live = {0, 1, 2, 3, 4}, origin_of = Map.empty, next_handle = 5,
           grad_enabled = False, calls = []\<rparr>)
     = Inr (1 / 2 * 4, 4)
   \<and> fst (logits_body (\<lambda>lg lab. 1 / 2) (\<lambda>c train. c) CPU
         \<lparr>Data = \<lparr>ctensor = 2, storage = 0, contents = Rows [[1], [2]], tdevice = CPU\<rparr>,
           Label = \<lparr>ctensor = 3, storage = 1, contents = Rows [[0], [1]], tdevice = CPU\<rparr>\<rparr>
         (0, 0)
         \<lparr>live = {0, 1, 2, 3}, origin_of = Map.empty, next_handle = 4,
           grad_enabled = False, calls = []\<rparr>)
     = Inr (1 / 2 * 2, 2)"
  by (simp add: idx_body_def logits_body_def Idx_def NewNarrow_def MustNarrow_def alloc_def Let_def
      andThen_def MustTo_def MustDrop_def ret_def panic_def ForwardT_def AccuracyForLogits_def
      Values_0_def MustSize_0_def)

subsection \<open>What the evaluators release\<close>

text \<open>
  For every input: whenever a pass through the loop body of either evaluator
  completes (for the iterator-based one, from pulling the batch on), no object that
  existed before the pass has been released, and of the six objects the pass created
  (two slices, two tensors moved to the device, the logits, the accuracy scalar) all
  have been released except the logits returned by \<^verbatim>\<open>ForwardT\<close>. For the whole
  call, on data and labels of rank one or more with the same number \<open>N\<close> of rows
  and for a positive batch size \<open>B\<close>: both evaluators return a value;
  \<^verbatim>\<open>BatchAccuracyForLogits\<close> creates six objects per batch and
  \<^verbatim>\<open>BatchAccuracyForLogitsIdx\<close> three more before its loop; when they return, no
  object of the caller has been released, and the objects they created and did not
  release are the logits, one per batch, and, in the index-based evaluator, the
  index tensor of \<^verbatim>\<open>MustRandperm\<close>.
\<close>

lemma evaluators_release_all_but_logits:
  assumes "contents xs = Rows X" and "contents ys = Rows Y" and "length Y = length X"
    and "rp (int (length X)) = p" and "length p = length X"
    and "list_all (\<lambda>k. 0 \<le> k \<and> k < int (length X)) p"
    and "0 < B"
  shows "(Next it s1 = (Inr (Some item, it'), s2)
          \<and> logits_body af m d item tot s2 = (Inr tot', s3)
          \<longrightarrow> released_except {FromForward} s1 s3)
       \<and> (idx_body af m d xs imagesTs labelsTs start sz tot s1 = (Inr tot', s4)
          \<longrightarrow> released_except {FromForward} s1 s4)
       \<and> (\<exists>r. fst (BatchAccuracyForLogits af m xs ys d B s) = Inr r)
       \<and> next_handle (snd (BatchAccuracyForLogits af m xs ys d B s))
           = next_handle s + 6 * (length X div nat B)
       \<and> released_except {FromForward} s (snd (BatchAccuracyForLogits af m xs ys d B s))
       \<and> (\<exists>r. fst (BatchAccuracyForLogitsIdx af rp m xs ys d B s) = Inr r)
       \<and> next_handle (snd (BatchAccuracyForLogitsIdx af rp m xs ys d B s))
           = next_handle s + 3 + 6 * (length X div nat B)
       \<and> released_except {FromForward, FromRandperm} s
           (snd (BatchAccuracyForLogitsIdx af rp m xs ys d B s))"
proof -
  have validY: "list_all (\<lambda>k. 0 \<le> k \<and> k < int (length Y)) p"
    using assms(6) by (simp only: assms(3))
  note run1 = BatchAccuracyForLogits_run [OF assms(1-3)]
  note run2 = BatchAccuracyForLogitsIdx_run [where rp = rp, OF assms(1,2,4,5,6) validY assms(7)]
  have len1: "length (drop_partial X Y B) = length X div nat B"
    using assms(7) by (simp add: drop_partial_def)
  have len2: "length (drop_partial (map (\<lambda>k. X ! nat k) p) (map (\<lambda>k. Y ! nat k) p) B)
              = length X div nat B"
    using assms(7) by (simp add: drop_partial_def assms(5))
  have 1: "\<exists>r. fst (BatchAccuracyForLogits af m xs ys d B s) = Inr r"
    by (simp add: run1)
  have 2: "next_handle (snd (BatchAccuracyForLogits af m xs ys d B s))
           = next_handle s + 6 * (length X div nat B)"
    by (simp add: run1 fold_batch_next len1)
  have 3: "released_except {FromForward} s (snd (BatchAccuracyForLogits af m xs ys d B s))"
    by (rule BatchAccuracyForLogits_released [OF assms(1-3)])
  have 4: "\<exists>r. fst (BatchAccuracyForLogitsIdx af rp m xs ys d B s) = Inr r"
    by (simp add: run2)
  have 5: "next_handle (snd (BatchAccuracyForLogitsIdx af rp m xs ys d B s))
           = next_handle s + 3 + 6 * (length X div nat B)"
    by (simp add: run2 fold_batch_next len2 idx_prologue_def)
  have 6: "released_except {FromForward, FromRandperm} s
           (snd (BatchAccuracyForLogitsIdx af rp m xs ys d B s))"
    by (rule BatchAccuracyForLogitsIdx_released
        [where rp = rp, OF assms(1,2,4,5,6) validY assms(7)])
  have 7: "Next it s1 = (Inr (Some item, it'), s2)
          \<and> logits_body af m d item tot s2 = (Inr tot', s3)
          \<longrightarrow> released_except {FromForward} s1 s3"
    using pass_released [OF logits_pass_effect] by blast
  have 8: "idx_body af m d xs imagesTs labelsTs start sz tot s1 = (Inr tot', s4)
          \<longrightarrow> released_except {FromForward} s1 s4"
    using pass_released [OF idx_body_effect] by blast
  from 7 8 1 2 3 4 5 6 show ?thesis by (intro conjI)
qed

subsection \<open>Claim C2: the transient tensors of a batch\<close>


subsection \<open>Claim C3: the gradient-tracking mode after an evaluation\<close>

text \<open>
  Claim C3 says that after either evaluator the gradient-tracking mode is what it was
  before the call. That holds for \<^verbatim>\<open>BatchAccuracyForLogits\<close>, whose guard is
  released by a deferred call. \<^verbatim>\<open>BatchAccuracyForLogitsIdx\<close> discards its guard:
  whatever its arguments and however it ends, gradient tracking is off afterwards, so
  a caller that had it on finds it changed.
\<close>

theorem BatchAccuracyForLogitsIdx_leaves_grad_off:
  "grad_enabled (snd (BatchAccuracyForLogitsIdx af rp m xs ys d batchSize s)) = False
   \<and> grad_enabled (snd (BatchAccuracyForLogits af m xs ys d batchSize s)) = grad_enabled s"
proof
  have "grad_enabled (snd (BatchAccuracyForLogitsIdx af rp m xs ys d batchSize s))
        = grad_enabled (s\<lparr>grad_enabled := False\<rparr>)"
    unfolding BatchAccuracyForLogitsIdx_def NewNoGradGuard_def Let_def prod.case
    by (intro grad_andThen grad_prims grad_MustIndexSelect)
       (simp_all add: grad_prims grad_idx_loop grad_andThen)
  then show "grad_enabled (snd (BatchAccuracyForLogitsIdx af rp m xs ys d batchSize s)) = False"
    by simp
next
  show "grad_enabled (snd (BatchAccuracyForLogits af m xs ys d batchSize s)) = grad_enabled s"
    by (simp add: BatchAccuracyForLogits_def NewNoGradGuard_def NoGradGuard_Drop_def Let_def
        split: prod.splits)
qed


subsection \<open>Claim C5: no batch at all\<close>

text \<open>
  Claim C5, as amended: when the inputs yield no batch (the batch size is negative or
  exceeds the number of rows), both evaluators return the \<^verbatim>\<open>float64\<close> NaN that
  \<open>0/0\<close> evaluates to, as an ordinary result; they report no error.
\<close>

theorem zero_batches_give_NaN:
  assumes "contents xs = Rows X" and "contents ys = Rows Y" and "length Y = length X"
    and "rp (int (length X)) = p" and "length p = length X"
    and "list_all (\<lambda>k. 0 \<le> k \<and> k < int (length X)) p"
    and "B < 0 \<or> int (length X) < B"
  shows "fst (BatchAccuracyForLogits af m xs ys d B s) = Inr NaN
       \<and> fst (BatchAccuracyForLogitsIdx af rp m xs ys d B s) = Inr NaN"
proof
  have "drop_partial X Y B = []" using assms(7) by (intro drop_partial_empty) auto
  then show "fst (BatchAccuracyForLogits af m xs ys d B s) = Inr NaN"
    by (simp add: BatchAccuracyForLogits_run [OF assms(1-3)] f64_div_def)
next
  have validY: "list_all (\<lambda>k. 0 \<le> k \<and> k < int (length Y)) p"
    using assms(6) by (simp only: assms(3))
  show "fst (BatchAccuracyForLogitsIdx af rp m xs ys d B s) = Inr NaN"
  proof (cases "B < 0")
    case True
    show ?thesis
      by (simp add: BatchAccuracyForLogitsIdx_negative
          [where rp = rp, OF assms(1,2,4,6) validY True])
  next
    case False
    with assms(7) have lt: "int (length X) < B" and pos: "0 < B" by auto
    have "drop_partial (map (\<lambda>k. X ! nat k) p) (map (\<lambda>k. Y ! nat k) p) B = []"
      using lt by (intro drop_partial_empty) (simp add: assms(5))
    then show ?thesis
      by (simp add: BatchAccuracyForLogitsIdx_run
          [where rp = rp, OF assms(1,2,4,5,6) validY pos] f64_div_def)
  qed
qed

text \<open>Witness for C5: two rows and batch size 3.\<close>

theorem zero_batches_give_NaN_witness:
  "fst (BatchAccuracyForLogits (\<lambda>lg lab. 1) (\<lambda>c train. c)
       \<lparr>ctensor = 0, storage = 0, contents = Rows [[1], [2]], tdevice = CPU\<rparr>
       \<lparr>ctensor = 1, storage = 1, contents = Rows [[0], [1]], tdevice = CPU\<rparr>
       CPU 3
       \<lparr>live = {0, 1}, origin_of = Map.empty, next_handle = 2, grad_enabled = True, calls = []\<rparr>)
     = Inr NaN
   \<and> fst (BatchAccuracyForLogitsIdx (\<lambda>lg lab. 1) (\<lambda>n. [1, 0]) (\<lambda>c train. c)
       \<lparr>ctensor = 0, storage = 0, contents = Rows [[1], [2]], tdevice = CPU\<rparr>
       \<lparr>ctensor = 1, storage = 1, contents = Rows [[0], [1]], tdevice = CPU\<rparr>
       CPU 3
       \<lparr>live = {0, 1}, origin_of = Map.empty, next_handle = 2, grad_enabled = True, calls = []\<rparr>)
     = Inr NaN"
  using zero_batches_give_NaN [of "\<lparr>ctensor = 0, storage = 0, contents = Rows [[1], [2]], tdevice = CPU\<rparr>"
      "[[1], [2]]"
      "\<lparr>ctensor = 1, storage = 1, contents = Rows [[0], [1]], tdevice = CPU\<rparr>"
      "[[0], [1]]" "\<lambda>n. [1, 0]" "[1, 0]" 3 "\<lambda>lg lab. 1" "\<lambda>c train. c" CPU
      "\<lparr>live = {0, 1}, origin_of = Map.empty, next_handle = 2, grad_enabled = True, calls = []\<rparr>"]
  by simp

text \<open>
  Counterexample to C5 as stated (an error is reported instead of NaN): on data and
  labels without rows both evaluators return NaN.
\<close>

theorem empty_input_returns_NaN_without_error:
  "fst (BatchAccuracyForLogits (\<lambda>lg lab. 1) (\<lambda>c train. c)
       \<lparr>ctensor = 0, storage = 0, contents = Rows [], tdevice = CPU\<rparr>
       \<lparr>ctensor = 1, storage = 1, contents = Rows [], tdevice = CPU\<rparr>
       CPU 4
       \<lparr>live = {0, 1}, origin_of = Map.empty, next_handle = 2, grad_enabled = True, calls = []\<rparr>)
     = Inr NaN
   \<and> fst (BatchAccuracyForLogitsIdx (\<lambda>lg lab. 1) (\<lambda>n. []) (\<lambda>c train. c)
       \<lparr>ctensor = 0, storage = 0, contents = Rows [], tdevice = CPU\<rparr>
       \<lparr>ctensor = 1, storage = 1, contents = Rows [], tdevice = CPU\<rparr>
       CPU 4
       \<lparr>live = {0, 1}, origin_of = Map.empty, next_handle = 2, grad_enabled = True, calls = []\<rparr>)
     = Inr NaN"
proof -
  have "drop_partial [] [] 4 = []" by (simp add: drop_partial_def)
  then show ?thesis
    by (simp add: BatchAccuracyForLogits_run [where X = "[]" and Y = "[]"]
        BatchAccuracyForLogitsIdx_run [where X = "[]" and Y = "[]" and p = "[]"] f64_div_def)
qed


end
